theory Spec2Isabelle
  imports Main "HOL-Library.Sublist"
begin

section \<open>JavaScript values\<close>

text \<open>
  Strings are lists of code units (\<open>string\<close>), the code units being those from U+0000 to U+00FF,
  which is what a \<open>char\<close> holds; a JavaScript number that the code only uses as an index or a
  count is an \<open>int\<close> or a \<open>nat\<close>; a field that may be \<open>undefined\<close> is an \<open>option\<close>.
  \<open>Date.now()\<close> is a parameter \<open>now\<close> of every operation that reads the clock.
\<close>

definition truthy :: "string \<Rightarrow> bool" where
  \<comment> \<open>a string is falsy exactly when it is empty\<close>
  "truthy s \<longleftrightarrow> s \<noteq> []"

definition js_index :: "nat \<Rightarrow> int \<Rightarrow> nat" where
  \<comment> \<open>how \<open>slice\<close> resolves an integer argument against a length: negative counts from the end,
      everything is clamped to \<open>0..len\<close>\<close>
  "js_index len i = (if i < 0 then nat (max (int len + i) 0) else min (nat i) len)"

definition slice_to :: "'a list \<Rightarrow> int \<Rightarrow> 'a list" where
  \<comment> \<open>\<open>s.slice(0, e)\<close>\<close>
  "slice_to s e = take (js_index (length s) e) s"

definition slice_from :: "'a list \<Rightarrow> int \<Rightarrow> 'a list" where
  \<comment> \<open>\<open>s.slice(b)\<close>\<close>
  "slice_from s b = drop (js_index (length s) b) s"

definition is_space :: "char \<Rightarrow> bool" where
  \<comment> \<open>what \<open>trim\<close> removes, the white space and the line terminators of the language, as far as
      they lie below U+0100: tab, line feed, vertical tab, form feed, carriage return, space and
      the no-break space U+00A0\<close>
  "is_space c \<longleftrightarrow> c \<in> set [CHR '' '', CHR 0x09, CHR 0x0A, CHR 0x0B, CHR 0x0C, CHR 0x0D, CHR 0xA0]"

definition trim :: "string \<Rightarrow> string" where
  "trim s = rev (dropWhile is_space (rev (dropWhile is_space s)))"

definition digit_char :: "nat \<Rightarrow> char" where
  "digit_char d = ''0123456789'' ! (d mod 10)"

fun show_nat :: "nat \<Rightarrow> string" where
  "show_nat n = (if n < 10 then [digit_char n] else show_nat (n div 10) @ [digit_char (n mod 10)])"

declare show_nat.simps [simp del]

fun str_includes :: "string \<Rightarrow> string \<Rightarrow> bool" where
  \<comment> \<open>\<open>hay.includes(needle)\<close> on strings\<close>
  "str_includes [] needle = (needle = [])"
| "str_includes (h # hay) needle = (prefix needle (h # hay) \<or> str_includes hay needle)"

fun join :: "string \<Rightarrow> string list \<Rightarrow> string" where
  \<comment> \<open>\<open>xs.join(sep)\<close>\<close>
  "join sep [] = []"
| "join sep [x] = x"
| "join sep (x # y # ys) = x @ sep @ join sep (y # ys)"

fun findIndex :: "('a \<Rightarrow> bool) \<Rightarrow> 'a list \<Rightarrow> nat option" where
  \<comment> \<open>\<open>xs.findIndex(p)\<close>; \<open>None\<close> is the source's \<open>-1\<close>\<close>
  "findIndex p [] = None"
| "findIndex p (x # xs) = (if p x then Some 0 else map_option Suc (findIndex p xs))"

fun split_on :: "char \<Rightarrow> string \<Rightarrow> string list" where
  \<comment> \<open>\<open>s.split(c)\<close>\<close>
  "split_on c [] = [[]]"
| "split_on c (x # xs) =
     (if x = c then [] # split_on c xs
      else (case split_on c xs of [] \<Rightarrow> [[x]] | p # ps \<Rightarrow> (x # p) # ps))"

definition second_field :: "string \<Rightarrow> string option" where
  \<comment> \<open>\<open>s.split(',')[1]\<close>\<close>
  "second_field s = (case split_on (CHR '','') s of _ # b # _ \<Rightarrow> Some b | _ \<Rightarrow> None)"

section \<open>Data model (types.ts)\<close>

datatype MessageSender = USER | MODEL | SYSTEM

datatype AttachmentStatus = Loading | Loaded | Error

record Attachment =
  att_id :: string
  att_name :: string
  att_type :: string
  att_data :: "string option"
  att_status :: AttachmentStatus
  att_errorMessage :: "string option"

record UrlContextMetadataItem =
  retrievedUrl :: string
  urlRetrievalStatus :: string

text \<open>
  The interface declares \<open>startIndex\<close>, \<open>endIndex\<close> and \<open>uri\<close> as present, the renderer tests
  each of them before use, so each is optional here.
\<close>

record CitationSource =
  startIndex :: "int option"
  endIndex :: "int option"
  uri :: "string option"
  license :: "string option"

record ChatMessage =
  msg_id :: string
  msg_text :: string
  sender :: MessageSender
  timestamp :: nat
  msg_isLoading :: "bool option"
  urlContext :: "UrlContextMetadataItem list option"
  attachments :: "Attachment list option"
  citations :: "CitationSource list option"

record Conversation =
  conv_id :: string
  conv_name :: string
  urls :: "string list"
  files :: "Attachment list"
  messages :: "ChatMessage list"
  lastUpdated :: nat

section \<open>Citation rendering (MessageItem.tsx, renderMessageContent)\<close>

text \<open>A citation that passed the renderer's filter: both indices defined, \<open>uri\<close> truthy.\<close>

record Cite =
  c_start :: int
  c_end :: int
  c_uri :: string

definition usable :: "CitationSource \<Rightarrow> Cite option" where
  "usable c =
     (case startIndex c of None \<Rightarrow> None | Some s \<Rightarrow>
      (case endIndex c of None \<Rightarrow> None | Some e \<Rightarrow>
       (case uri c of None \<Rightarrow> None | Some u \<Rightarrow>
          if truthy u then Some \<lparr>c_start = s, c_end = e, c_uri = u\<rparr> else None)))"

definition sortedCitations :: "CitationSource list \<Rightarrow> Cite list" where
  \<comment> \<open>\<open>.filter(...).sort((a, b) => b.startIndex - a.startIndex)\<close>; the sort is stable\<close>
  "sortedCitations cs = sort_key (\<lambda>c. - c_start c) (List.map_filter usable cs)"

text \<open>
  \<open>sourceMap\<close> is a \<open>Map\<close>, which keeps its keys in insertion order: an association list that
  grows at the end, together with \<open>sourceCounter\<close>.
\<close>

type_synonym sources = "(string \<times> nat) list \<times> nat"

definition getSourceNumber :: "string \<Rightarrow> sources \<Rightarrow> nat \<times> sources" where
  "getSourceNumber u st =
     (case st of (sourceMap, sourceCounter) \<Rightarrow>
        (case map_of sourceMap u of
           Some n \<Rightarrow> (n, (sourceMap, sourceCounter))
         | None \<Rightarrow> (sourceCounter, (sourceMap @ [(u, sourceCounter)], sourceCounter + 1))))"

definition injection :: "string \<Rightarrow> nat \<Rightarrow> string" where
  \<open>injection u sourceNum =
     ''<sup><a href="'' @ u @ ''" target="_blank" rel="noopener noreferrer" title="'' @ u @
     ''" class="text-[#79B8FF] no-underline font-semibold">['' @ show_nat sourceNum @ '']</a></sup>''\<close>

definition insert_marker :: "Cite \<Rightarrow> string \<times> sources \<Rightarrow> string \<times> sources" where
  \<comment> \<open>the body of \<open>sortedCitations.forEach\<close>\<close>
  "insert_marker c acc =
     (case acc of (processedText, st) \<Rightarrow>
        (case getSourceNumber (c_uri c) st of (sourceNum, st') \<Rightarrow>
           (slice_to processedText (c_end c) @ injection (c_uri c) sourceNum
              @ slice_from processedText (c_end c), st')))"

definition apply_citations :: "string \<Rightarrow> Cite list \<Rightarrow> string \<times> sources" where
  "apply_citations text cs = fold insert_marker cs (text, ([], 1))"

datatype rendered =
    CitedMarkup string "(string \<times> nat) list"
  | ModelMarkup string
  | PlainText string
  | NoContent

definition renderMessageContent :: "ChatMessage \<Rightarrow> rendered" where
  \<comment> \<open>the markup is the string handed to \<open>marked.parse\<close>; the list is \<open>sourceMap.entries()\<close>\<close>
  "renderMessageContent message =
     (let text = msg_text message; cits = (case citations message of None \<Rightarrow> [] | Some cs \<Rightarrow> cs) in
      if sender message = MODEL \<and> cits \<noteq> [] \<and> truthy text then
        (case apply_citations text (sortedCitations cits) of
           (processedText, sourceMap, sourceCounter) \<Rightarrow> CitedMarkup processedText sourceMap)
      else if sender message = MODEL then ModelMarkup text
      else if \<not> truthy text \<and> (case attachments message of None \<Rightarrow> False | Some as \<Rightarrow> as \<noteq> [])
        then NoContent
      else PlainText text)"

text \<open>The number each processed citation received, in processing order.\<close>

fun numbering :: "Cite list \<Rightarrow> sources \<Rightarrow> nat list" where
  "numbering [] st = []"
| "numbering (c # cs) st =
     (case getSourceNumber (c_uri c) st of (sourceNum, st') \<Rightarrow> sourceNum # numbering cs st')"

text \<open>
  What the claim about insertion offsets asks of one step: the text in front of the insertion
  point of \<open>c\<close> in the accumulated string is the original text in front of \<open>endIndex\<close>.
\<close>

definition offset_intact :: "string \<Rightarrow> string \<Rightarrow> Cite \<Rightarrow> bool" where
  "offset_intact original processed c \<longleftrightarrow>
     slice_to processed (c_end c) = slice_to original (c_end c)"

fun offsets_intact :: "string \<Rightarrow> string \<times> sources \<Rightarrow> Cite list \<Rightarrow> bool" where
  "offsets_intact original acc [] = True"
| "offsets_intact original acc (c # cs) =
     (offset_intact original (fst acc) c \<and> offsets_intact original (insert_marker c acc) cs)"

text \<open>First-seen order, in the words of the specification: each key once, by first occurrence.\<close>

fun first_seen :: "'a list \<Rightarrow> 'a list" where
  "first_seen [] = []"
| "first_seen (x # xs) = x # removeAll x (first_seen xs)"

fun position :: "'a \<Rightarrow> 'a list \<Rightarrow> nat" where
  "position x [] = 0"
| "position x (y # ys) = (if x = y then 0 else Suc (position x ys))"

definition numbered :: "string list \<Rightarrow> (string \<times> nat) list" where
  \<comment> \<open>the keys with their 1-based positions\<close>
  "numbered seen = map (\<lambda>u. (u, Suc (position u seen))) seen"

definition unseen :: "'a list \<Rightarrow> 'a list \<Rightarrow> 'a list" where
  "unseen seen us = filter (\<lambda>u. u \<notin> set seen) (first_seen us)"

section \<open>Model service (geminiService.ts)\<close>

datatype Language = ar | en

datatype Part = TextPart string | InlineData string string

datatype Role = user_role | model_role

record Content =
  role :: Role
  parts :: "Part list"

text \<open>
  The decoders the service calls are libraries outside the repository: \<open>atob\<close>, the DOCX text
  extractor and the spreadsheet reader. \<open>None\<close> is a thrown exception.
\<close>

record Decoders =
  atob :: "string \<Rightarrow> string option"
  extractRawText :: "string \<Rightarrow> string option"
  sheets_csv :: "string \<Rightarrow> (string \<times> string) list option"

definition file_block :: "string \<Rightarrow> string \<Rightarrow> string \<Rightarrow> Part" where
  "file_block pfx nm body =
     TextPart ([CHR 0x0A, CHR 0x0A] @ ''--- '' @ pfx @ '' Content from file: '' @ nm @ '' ---''
       @ [CHR 0x0A] @ body @ [CHR 0x0A] @ ''--- End of file: '' @ nm @ '' ---'' @ [CHR 0x0A])"

definition file_error_block :: "string \<Rightarrow> Part" where
  "file_error_block nm =
     TextPart ([CHR 0x0A, CHR 0x0A] @ ''--- Error processing file: '' @ nm
       @ ''. The file could not be read or is corrupted. ---'' @ [CHR 0x0A])"

definition sheet_text :: "(string \<times> string) list \<Rightarrow> string" where
  "sheet_text sheets =
     concat (map (\<lambda>(sheetName, csv).
       [CHR 0x0A, CHR 0x0A] @ ''--- Sheet: '' @ sheetName @ '' ---'' @ [CHR 0x0A] @ csv) sheets)"

definition createPartFromAttachment :: "Decoders \<Rightarrow> Attachment \<Rightarrow> string \<Rightarrow> Part option" where
  "createPartFromAttachment dec attachment pfx =
     (case att_data attachment of
        None \<Rightarrow> None
      | Some d \<Rightarrow>
          if \<not> truthy d then None
          else if prefix ''text/'' (att_type attachment) then
            (case atob dec d of
               Some textContent \<Rightarrow> Some (file_block pfx (att_name attachment) textContent)
             | None \<Rightarrow> Some (file_error_block (att_name attachment)))
          else if att_type attachment =
               ''application/vnd.openxmlformats-officedocument.wordprocessingml.document'' then
            (case atob dec d of
               None \<Rightarrow> Some (file_error_block (att_name attachment))
             | Some bytes \<Rightarrow>
                 (case extractRawText dec bytes of
                    Some v \<Rightarrow> Some (file_block pfx (att_name attachment) v)
                  | None \<Rightarrow> Some (file_error_block (att_name attachment))))
          else if att_type attachment =
               ''application/vnd.openxmlformats-officedocument.spreadsheetml.sheet'' then
            (case sheets_csv dec d of
               Some sheets \<Rightarrow> Some (file_block pfx (att_name attachment) (sheet_text sheets))
             | None \<Rightarrow> Some (file_error_block (att_name attachment)))
          else if att_type attachment \<in> set [''image/jpeg'', ''image/png'', ''image/webp'', ''application/pdf'']
            then Some (InlineData (att_type attachment) d)
          else None)"

definition text_of_parts :: "Part option list \<Rightarrow> string" where
  \<comment> \<open>\<open>.filter(p => p !== null && 'text' in p).map(p => p.text).join('')\<close>\<close>
  "text_of_parts ps = concat (List.map_filter (\<lambda>p. case p of Some (TextPart t) \<Rightarrow> Some t | _ \<Rightarrow> None) ps)"

definition data_of_parts :: "Part option list \<Rightarrow> Part list" where
  "data_of_parts ps = List.map_filter (\<lambda>p. case p of Some (InlineData m d) \<Rightarrow> Some (InlineData m d) | _ \<Rightarrow> None) ps"

fun history_contents :: "Decoders \<Rightarrow> string \<Rightarrow> bool \<Rightarrow> ChatMessage list \<Rightarrow> Content list" where
  \<comment> \<open>the loop over \<open>history\<close>; the flag is \<open>isFirstUserMessage\<close>\<close>
  "history_contents dec contextTextContent isFirstUserMessage [] = []"
| "history_contents dec contextTextContent isFirstUserMessage (message # rest) =
     (if sender message = SYSTEM \<or> msg_isLoading message = Some True
        then history_contents dec contextTextContent isFirstUserMessage rest
      else
        let r = (if sender message = USER then user_role else model_role);
            resolved = map (\<lambda>att. createPartFromAttachment dec att ''User Upload'')
                         (filter (\<lambda>a. att_status a = Loaded)
                            (case attachments message of None \<Rightarrow> [] | Some as \<Rightarrow> as));
            attachmentTextContent = text_of_parts resolved;
            prepend = (r = user_role \<and> isFirstUserMessage \<and> truthy contextTextContent);
            combined0 = (if prepend then contextTextContent @ [CHR 0x0A] @ msg_text message
                         else msg_text message);
            combinedText = (if truthy attachmentTextContent
                            then combined0 @ [CHR 0x0A] @ attachmentTextContent else combined0);
            ps = (if truthy (trim combinedText) then [TextPart combinedText] else []) @ data_of_parts resolved;
            flag = (if prepend then False else isFirstUserMessage)
        in (if ps \<noteq> [] then [\<lparr>role = r, parts = ps\<rparr>] else [])
             @ history_contents dec contextTextContent flag rest)"

text \<open>
  A request to the backend. The system instruction is a fixed text that names the answer
  language; the safety settings are constants.
\<close>

record StreamRequest =
  req_contents :: "Content list"
  req_language :: Language
  req_tools :: "string list list"

record Candidate =
  citationSources :: "CitationSource list option"
  urlMetadata :: "UrlContextMetadataItem list option"

text \<open>
  One chunk of the backend's stream. \<open>citationSources\<close> stands for
  \<open>candidate.citationMetadata?.citationSources\<close> and \<open>urlMetadata\<close> for
  \<open>candidate.urlContextMetadata.urlMetadata\<close> when both exist.
\<close>

record Chunk =
  chunk_text :: "string option"
  candidates :: "Candidate list option"

datatype js_error = JsError string "string option" | NotAnError

text \<open>
  The backend is the environment: its stream is the chunks it delivers and, after them, the
  exception it raises, if any (with no chunk: the call itself fails).
\<close>

record Backend =
  generateContentStream :: "StreamRequest \<Rightarrow> Chunk list \<times> js_error option"
  generateContent :: "string \<Rightarrow> js_error + string"

record Env =
  API_KEY :: "string option"
  backend :: Backend
  decoders :: Decoders
  lang :: Language

definition key_configured :: "Env \<Rightarrow> bool" where
  \<comment> \<open>\<open>!API_KEY\<close> fails\<close>
  "key_configured env = (case API_KEY env of None \<Rightarrow> False | Some k \<Rightarrow> truthy k)"

definition getAiInstance :: "Env \<Rightarrow> string + Backend" where
  "getAiInstance env =
     (if \<not> key_configured env then Inl ''Gemini API Key not configured. Set process.env.API_KEY.''
      else Inr (backend env))"

record StreamItem =
  textChunk :: "string option"
  item_urlContextMetadata :: "UrlContextMetadataItem list option"
  item_citations :: "CitationSource list option"

definition text_item :: "string \<Rightarrow> StreamItem" where
  "text_item t = \<lparr>textChunk = Some t, item_urlContextMetadata = None, item_citations = None\<rparr>"

definition final_item :: "Chunk \<Rightarrow> StreamItem" where
  "final_item finalResponse =
     (let candidate = (case candidates finalResponse of Some (c # _) \<Rightarrow> Some c | _ \<Rightarrow> None) in
      \<lparr>textChunk = None,
       item_urlContextMetadata = (case candidate of None \<Rightarrow> None | Some c \<Rightarrow> urlMetadata c),
       item_citations = (case candidate of None \<Rightarrow> None | Some c \<Rightarrow> citationSources c)\<rparr>)"

definition chunk_items :: "Chunk \<Rightarrow> StreamItem list" where
  \<comment> \<open>\<open>if (chunk.text) yield { textChunk: chunk.text }\<close>\<close>
  "chunk_items chunk =
     (case chunk_text chunk of None \<Rightarrow> [] | Some t \<Rightarrow> if truthy t then [text_item t] else [])"

definition stream_error_message :: "js_error \<Rightarrow> string" where
  \<comment> \<open>the \<open>catch\<close> of the streaming function\<close>
  "stream_error_message e =
     (case e of
        NotAnError \<Rightarrow> ''Failed to get response from AI due to an unknown error.''
      | JsError message ty \<Rightarrow>
          if str_includes message ''API key not valid''
            then ''Invalid API Key. Please check your GEMINI_API_KEY environment variable.''
          else if str_includes message ''quota''
            then ''API quota exceeded. Please check your Gemini API quota.''
          else if ty = Some ''GoogleGenAIError'' \<and> truthy message
            then ''Gemini API Error: '' @ message
          else ''Failed to get response from AI: '' @ message)"

text \<open>
  What a consumer of the generator sees: the items yielded, then the exception, if one is
  thrown; \<open>calls\<close> lists the requests that reached the backend.
\<close>

record Generated =
  yielded :: "StreamItem list"
  thrown :: "string option"
  calls :: "StreamRequest list"

definition generateContentStreamWithUrlContext ::
    "Env \<Rightarrow> ChatMessage list \<Rightarrow> string list \<Rightarrow> Attachment list \<Rightarrow> Language \<Rightarrow> Generated" where
  "generateContentStreamWithUrlContext env history ctxUrls ctxFiles language =
     (case getAiInstance env of
        Inl msg \<Rightarrow> \<lparr>yielded = [], thrown = Some msg, calls = []\<rparr>
      | Inr currentAi \<Rightarrow>
          let contextTextContent =
                text_of_parts (map (\<lambda>f. createPartFromAttachment (decoders env) f ''Knowledge Base'') ctxFiles);
              request = \<lparr>req_contents = history_contents (decoders env) contextTextContent True history,
                         req_language = language,
                         req_tools = (if ctxUrls \<noteq> [] then [ctxUrls] else [])\<rparr>
          in (case generateContentStream currentAi request of
                (chunks, failure) \<Rightarrow>
                  (case failure of
                     Some e \<Rightarrow>
                       \<lparr>yielded = concat (map chunk_items chunks),
                        thrown = Some (stream_error_message e), calls = [request]\<rparr>
                   | None \<Rightarrow>
                       \<lparr>yielded = concat (map chunk_items chunks)
                                    @ (if chunks = [] then [] else [final_item (last chunks)]),
                        thrown = None, calls = [request]\<rparr>)))"

definition suggestions_prompt :: "string list \<Rightarrow> Language \<Rightarrow> string" where
  \<open>suggestions_prompt us language =
     ''Based on the content of the following documentation URLs, provide 3-4 concise and actionable questions a developer might ask to explore these documents. These questions should be suitable as quick-start prompts. Return ONLY a JSON object with a key "suggestions" containing an array of these question strings. Respond in ''
     @ (if language = ar then ''Arabic'' else ''English'')
     @ ''. For example: {"suggestions": ["What are the rate limits?", "How do I get an API key?", "Explain model X."]}''
     @ [CHR 0x0A, CHR 0x0A] @ ''Relevant URLs:'' @ [CHR 0x0A] @ join [CHR 0x0A] us\<close>

definition suggestions_error_message :: "js_error \<Rightarrow> string" where
  "suggestions_error_message e =
     (case e of
        NotAnError \<Rightarrow> ''Failed to get initial suggestions from AI due to an unknown error.''
      | JsError message ty \<Rightarrow>
          if str_includes message ''API key not valid''
            then ''Invalid API Key for suggestions. Please check your GEMINI_API_KEY environment variable.''
          else if str_includes message
                    (''Tool use with a response mime type: '' @ [CHR 0x27] @ ''application/json'' @ [CHR 0x27] @ '' is unsupported'')
            then ''Configuration error: Cannot use tools with JSON response type for suggestions. This should be fixed in the code.''
          else ''Failed to get initial suggestions from AI: '' @ message)"

text \<open>The result of the promise (\<open>Inl\<close>: rejected with that message) and the prompts sent.\<close>

definition getInitialSuggestions :: "Env \<Rightarrow> string list \<Rightarrow> Language \<Rightarrow> (string + string) \<times> string list" where
  \<open>getInitialSuggestions env us language =
     (if length us = 0
        then (Inr ''{"suggestions":["Add some URLs to get topic suggestions."]}'', [])
      else
        (case getAiInstance env of
           Inl msg \<Rightarrow> (Inl msg, [])
         | Inr currentAi \<Rightarrow>
             (case generateContent currentAi (suggestions_prompt us language) of
                Inr t \<Rightarrow> (Inr t, [suggestions_prompt us language])
              | Inl e \<Rightarrow> (Inl (suggestions_error_message e), [suggestions_prompt us language]))))\<close>

section \<open>Application state (App.tsx)\<close>

text \<open>
  \<open>_triggerModelResponse\<close> is asynchronous: it returns at its first \<open>await\<close> and goes on each
  time its stream delivers. An activation that waits for its stream is the variables of its
  closure (the \<open>activeConversationId\<close> of the render it was called in, the placeholder, and
  \<open>fullText\<close>, \<open>finalCitations\<close>, \<open>finalUrlContext\<close>) and what the generator has still to
  deliver: the items it yields and, after them, the exception it throws, if any.
\<close>

record StreamAcc =
  fullText :: string
  finalCitations :: "CitationSource list option"
  finalUrlContext :: "UrlContextMetadataItem list option"

record Response =
  r_conversation :: string
  r_placeholder :: ChatMessage
  r_acc :: StreamAcc
  r_items :: "StreamItem list"
  r_thrown :: "string option"

text \<open>
  The state of the \<open>App\<close> component. \<open>spoken\<close>, \<open>network\<close> and \<open>pending\<close> are not fields of the
  source: the first two log the texts handed to \<open>speakText\<close> and the requests that reached the
  backend, the third holds the activations of \<open>_triggerModelResponse\<close> that wait for their
  stream, in the order they were started.
\<close>

record AppState =
  conversations :: "Conversation list"
  activeConversationId :: string
  maxContextItems :: nat
  isLoading :: bool
  isFetchingSuggestions :: bool
  initialQuerySuggestions :: "string list"
  spoken :: "string list"
  network :: "StreamRequest list"
  pending :: "Response list"

definition activeConversation :: "AppState \<Rightarrow> Conversation option" where
  \<comment> \<open>\<open>conversations.find(c => c.id === activeConversationId) || conversations[0]\<close>\<close>
  "activeConversation s =
     (case find (\<lambda>c. conv_id c = activeConversationId s) (conversations s) of
        Some c \<Rightarrow> Some c
      | None \<Rightarrow> (case conversations s of [] \<Rightarrow> None | c # _ \<Rightarrow> Some c))"

definition chatMessages :: "AppState \<Rightarrow> ChatMessage list" where
  "chatMessages s = (case activeConversation s of None \<Rightarrow> [] | Some c \<Rightarrow> messages c)"

definition contextUrls :: "AppState \<Rightarrow> string list" where
  "contextUrls s = (case activeConversation s of None \<Rightarrow> [] | Some c \<Rightarrow> urls c)"

definition contextFiles :: "AppState \<Rightarrow> Attachment list" where
  "contextFiles s =
     (case activeConversation s of None \<Rightarrow> []
      | Some c \<Rightarrow> filter (\<lambda>f. att_status f = Loaded) (files c))"

definition updateActiveConversation :: "(Conversation \<Rightarrow> Conversation) \<Rightarrow> AppState \<Rightarrow> AppState" where
  "updateActiveConversation updater s =
     s\<lparr>conversations :=
         map (\<lambda>c. if conv_id c = activeConversationId s then updater c else c) (conversations s)\<rparr>"

text \<open>
  A callback that runs later (the continuation of an \<open>await\<close>, the answer of a \<open>FileReader\<close>)
  calls the \<open>updateActiveConversation\<close> of the render that created it: the id compared with is
  the \<open>activeConversationId\<close> of that render, \<open>cid\<close>, the list mapped over is the one of the
  moment (\<open>setConversations(prev => prev.map(...))\<close>).
\<close>

definition updateConversation :: "string \<Rightarrow> (Conversation \<Rightarrow> Conversation) \<Rightarrow> AppState \<Rightarrow> AppState" where
  "updateConversation cid updater s =
     s\<lparr>conversations := map (\<lambda>c. if conv_id c = cid then updater c else c) (conversations s)\<rparr>"

text \<open>
  \<open>t\<close> is the translation function of the language context, applied to a key and, where the
  text has a place for it, the conversation's name. \<open>saved\<close> is what \<open>JSON.parse\<close> makes of the
  stored item \<open>conversations\<close> when that is an array (\<open>None\<close>: no item, no JSON, no array),
  \<open>savedActiveId\<close> the stored item \<open>activeConversationId\<close>.
\<close>

definition has_data :: "Attachment \<Rightarrow> bool" where
  "has_data a = (case att_data a of None \<Rightarrow> False | Some d \<Rightarrow> truthy d)"

definition welcome_message :: "string \<Rightarrow> string \<Rightarrow> nat \<Rightarrow> ChatMessage" where
  "welcome_message cid t now =
     \<lparr>msg_id = ''system-welcome-'' @ cid, msg_text = t, sender = SYSTEM, timestamp = now,
      msg_isLoading = None, urlContext = None, attachments = None, citations = None\<rparr>"

definition restore :: "Conversation \<Rightarrow> Conversation" where
  \<comment> \<open>the body of \<open>parsed.map\<close>\<close>
  "restore conv =
     conv\<lparr>files := filter (\<lambda>f. att_status f = Loaded \<and> has_data f) (files conv),
          messages :=
            map (\<lambda>msg. msg\<lparr>attachments :=
                         Some (filter (\<lambda>a. att_status a = Loaded \<and> has_data a)
                                 (case attachments msg of None \<Rightarrow> [] | Some as \<Rightarrow> as))\<rparr>)
              (messages conv)\<rparr>"

definition loadInitialState ::
    "(string \<Rightarrow> string option \<Rightarrow> string) \<Rightarrow> nat \<Rightarrow> Conversation list option \<Rightarrow> string option
      \<Rightarrow> Conversation list \<times> string" where
  "loadInitialState t now saved savedActiveId =
     (let loadedConversations = (case saved of None \<Rightarrow> [] | Some parsed \<Rightarrow> map restore parsed)
      in if loadedConversations = [] then
           let defaultId = ''conv-'' @ show_nat now;
               defaultName = t ''myFirstConversation'' None
           in ([\<lparr>conv_id = defaultId, conv_name = defaultName, urls = [], files = [],
                  messages = [welcome_message defaultId (t ''welcomeMessage'' (Some defaultName)) now],
                  lastUpdated = now\<rparr>],
               defaultId)
         else
           let sorted = sort_key (\<lambda>c. - int (lastUpdated c)) loadedConversations
           in (sorted,
               case savedActiveId of
                 None \<Rightarrow> conv_id (hd sorted)
               | Some a \<Rightarrow>
                   if truthy a \<and> (\<exists>c \<in> set sorted. conv_id c = a) then a else conv_id (hd sorted)))"

definition initialState ::
    "(string \<Rightarrow> string option \<Rightarrow> string) \<Rightarrow> nat \<Rightarrow> Conversation list option \<Rightarrow> string option
      \<Rightarrow> nat \<Rightarrow> AppState" where
  \<comment> \<open>the first render; \<open>maxItems\<close> is the stored limit, or 30\<close>
  "initialState t now saved savedActiveId maxItems =
     \<lparr>conversations = fst (loadInitialState t now saved savedActiveId),
      activeConversationId = snd (loadInitialState t now saved savedActiveId),
      maxContextItems = maxItems, isLoading = False, isFetchingSuggestions = False,
      initialQuerySuggestions = [], spoken = [], network = [], pending = []\<rparr>"

definition setActiveConversationId :: "string \<Rightarrow> AppState \<Rightarrow> AppState" where
  \<comment> \<open>the panel's selector calls it with the id of the chosen option\<close>
  "setActiveConversationId cid s = s\<lparr>activeConversationId := cid\<rparr>"

definition handleNewConversation ::
    "(string \<Rightarrow> string option \<Rightarrow> string) \<Rightarrow> nat \<Rightarrow> string \<Rightarrow> AppState \<Rightarrow> AppState" where
  "handleNewConversation t now name s =
     (if \<not> truthy (trim name) then s
      else
        let newId = ''conv-'' @ show_nat now;
            newConversation =
              \<lparr>conv_id = newId, conv_name = trim name, urls = [], files = [],
               messages = [welcome_message newId (t ''newChatCreated'' (Some (trim name))) now],
               lastUpdated = now\<rparr>
        in s\<lparr>conversations :=
               sort_key (\<lambda>c. - int (lastUpdated c)) (conversations s @ [newConversation]),
             activeConversationId := newId\<rparr>)"

definition handleDeleteConversation :: "AppState \<Rightarrow> AppState" where
  "handleDeleteConversation s =
     (if length (conversations s) \<le> 1 then s
      else
        let newConversations = filter (\<lambda>c. conv_id c \<noteq> activeConversationId s) (conversations s);
            nextActiveIndex =
              (case findIndex (\<lambda>c. conv_id c = activeConversationId s) (conversations s) of
                 None \<Rightarrow> 0
               | Some activeIndex \<Rightarrow> if activeIndex > 0 then activeIndex - 1 else 0);
            nextActiveIndex' =
              (if nextActiveIndex \<ge> length newConversations
               then int (length newConversations) - 1 else int nextActiveIndex);
            nextActiveId =
              (if 0 \<le> nextActiveIndex' \<and> nextActiveIndex' < int (length newConversations)
               then conv_id (newConversations ! nat nextActiveIndex') else [])
        in s\<lparr>conversations := newConversations, activeConversationId := nextActiveId\<rparr>)"

definition handleAddUrl :: "nat \<Rightarrow> string \<Rightarrow> AppState \<Rightarrow> AppState" where
  "handleAddUrl now url s =
     updateActiveConversation
       (\<lambda>c. if length (urls c) + length (files c) < maxContextItems s \<and> url \<notin> set (urls c)
            then c\<lparr>urls := urls c @ [url], lastUpdated := now\<rparr> else c) s"

definition handleRemoveUrl :: "nat \<Rightarrow> string \<Rightarrow> AppState \<Rightarrow> AppState" where
  "handleRemoveUrl now urlToRemove s =
     updateActiveConversation
       (\<lambda>c. c\<lparr>urls := filter (\<lambda>url. url \<noteq> urlToRemove) (urls c), lastUpdated := now\<rparr>) s"

text \<open>A browser \<open>File\<close>, as far as the handlers read it.\<close>

record File =
  file_name :: string
  file_type :: string

definition file_placeholder :: "string \<Rightarrow> nat \<Rightarrow> File \<Rightarrow> Attachment" where
  \<comment> \<open>\<open>{ id: `<tag>-${file.name}-${Date.now()}`, name, type, status: 'loading' }\<close>\<close>
  "file_placeholder tag now f =
     \<lparr>att_id = tag @ ''-'' @ file_name f @ ''-'' @ show_nat now, att_name = file_name f,
      att_type = file_type f, att_data = None, att_status = Loading, att_errorMessage = None\<rparr>"

definition handleAddFiles :: "nat \<Rightarrow> File list \<Rightarrow> AppState \<Rightarrow> AppState" where
  \<comment> \<open>the synchronous part; each file's reader answers later, see \<open>addFiles_onload\<close> and
      \<open>addFiles_onerror\<close>\<close>
  "handleAddFiles now fs s =
     updateActiveConversation (\<lambda>c. c\<lparr>files := files c @ map (file_placeholder ''file'' now) fs\<rparr>) s"




definition handleRemoveFile :: "nat \<Rightarrow> string \<Rightarrow> AppState \<Rightarrow> AppState" where
  "handleRemoveFile now fileIdToRemove s =
     updateActiveConversation
       (\<lambda>c. c\<lparr>files := filter (\<lambda>f. att_id f \<noteq> fileIdToRemove) (files c), lastUpdated := now\<rparr>) s"

section \<open>Knowledge base panel (KnowledgeBaseManager.tsx)\<close>

datatype kb_error =
    errorUrlEmpty
  | errorUrlInvalid
  | errorMaxItemsReached nat
  | errorUrlExists
  | errorCannotAddAllFiles nat
  | errorFileUnsupported string
  | errorFileExists string

record KbUi =
  currentUrlInput :: string
  kb_error :: "kb_error option"

definition kb_activeConversation :: "AppState \<Rightarrow> Conversation option" where
  \<comment> \<open>the panel has no fallback to the first conversation\<close>
  "kb_activeConversation s = find (\<lambda>c. conv_id c = activeConversationId s) (conversations s)"

definition kb_urls :: "AppState \<Rightarrow> string list" where
  "kb_urls s = (case kb_activeConversation s of None \<Rightarrow> [] | Some c \<Rightarrow> urls c)"

definition kb_files :: "AppState \<Rightarrow> Attachment list" where
  "kb_files s = (case kb_activeConversation s of None \<Rightarrow> [] | Some c \<Rightarrow> files c)"

definition totalItems :: "AppState \<Rightarrow> nat" where
  "totalItems s = length (kb_urls s) + length (kb_files s)"

text \<open>\<open>isValidUrl\<close> asks the platform's URL parser; it is a parameter.\<close>

definition handleAddUrlClick :: "(string \<Rightarrow> bool) \<Rightarrow> nat \<Rightarrow> KbUi \<times> AppState \<Rightarrow> KbUi \<times> AppState" where
  "handleAddUrlClick isValidUrl now st =
     (case st of (ui, s) \<Rightarrow>
        if \<not> truthy (trim (currentUrlInput ui)) then (ui\<lparr>kb_error := Some errorUrlEmpty\<rparr>, s)
        else if \<not> isValidUrl (currentUrlInput ui) then (ui\<lparr>kb_error := Some errorUrlInvalid\<rparr>, s)
        else if totalItems s \<ge> maxContextItems s
          then (ui\<lparr>kb_error := Some (errorMaxItemsReached (maxContextItems s))\<rparr>, s)
        else if currentUrlInput ui \<in> set (kb_urls s) then (ui\<lparr>kb_error := Some errorUrlExists\<rparr>, s)
        else (ui\<lparr>kb_error := None, currentUrlInput := []\<rparr>, handleAddUrl now (currentUrlInput ui) s))"

definition supportedTypes :: "string list" where
  "supportedTypes =
     [''image/jpeg'', ''image/png'', ''image/webp'', ''text/plain'', ''text/markdown'',
      ''application/pdf'',
      ''application/vnd.openxmlformats-officedocument.wordprocessingml.document'',
      ''application/vnd.openxmlformats-officedocument.spreadsheetml.sheet'']"

definition sort_file :: "Attachment list \<Rightarrow> File \<Rightarrow> File list \<times> kb_error option \<Rightarrow> File list \<times> kb_error option" where
  \<comment> \<open>the body of \<open>Array.from(selectedFiles).forEach\<close>\<close>
  "sort_file existing f acc =
     (case acc of (filesToProcess, err) \<Rightarrow>
        if file_type f \<notin> set supportedTypes then (filesToProcess, Some (errorFileUnsupported (file_name f)))
        else if \<exists>existingFile \<in> set existing. att_name existingFile = file_name f
          then (filesToProcess, Some (errorFileExists (file_name f)))
        else (filesToProcess @ [f], err))"

definition handleFilesSelected :: "nat \<Rightarrow> File list option \<Rightarrow> KbUi \<times> AppState \<Rightarrow> KbUi \<times> AppState" where
  "handleFilesSelected now selectedFiles st =
     (case st of (ui, s) \<Rightarrow>
        (case selectedFiles of
           None \<Rightarrow> (ui\<lparr>kb_error := None\<rparr>, s)
         | Some sel \<Rightarrow>
             if totalItems s + length sel > maxContextItems s
               then (ui\<lparr>kb_error := Some (errorCannotAddAllFiles (maxContextItems s))\<rparr>, s)
             else
               (case fold (sort_file (kb_files s)) sel ([], None) of
                  (filesToProcess, err) \<Rightarrow>
                    (ui\<lparr>kb_error := err\<rparr>,
                     if filesToProcess \<noteq> [] then handleAddFiles now filesToProcess s else s))))"




section \<open>Generating a response (App.tsx)\<close>

definition modelPlaceholderMessage :: "nat \<Rightarrow> ChatMessage" where
  "modelPlaceholderMessage now =
     \<lparr>msg_id = ''model-response-'' @ show_nat now, msg_text = [], sender = MODEL, timestamp = now,
      msg_isLoading = Some True, urlContext = None, attachments = None, citations = None\<rparr>"

definition apiKeyErrorMessage :: "nat \<Rightarrow> ChatMessage" where
  "apiKeyErrorMessage now =
     \<lparr>msg_id = ''error-apikey-'' @ show_nat now,
      msg_text = ''ERROR: API Key (process.env.API_KEY) is not configured. Please set it up to send messages.'',
      sender = SYSTEM, timestamp = now, msg_isLoading = None, urlContext = None,
      attachments = None, citations = None\<rparr>"

definition update_message :: "string \<Rightarrow> string \<Rightarrow> (ChatMessage \<Rightarrow> ChatMessage) \<Rightarrow> AppState \<Rightarrow> AppState" where
  \<comment> \<open>\<open>updateActiveConversation(c => ({...c, messages: c.messages.map(msg => msg.id === id ?
      f(msg) : msg)}))\<close>, called after an \<open>await\<close>\<close>
  "update_message cid pid f s =
     updateConversation cid
       (\<lambda>c. c\<lparr>messages := map (\<lambda>msg. if msg_id msg = pid then f msg else msg) (messages c)\<rparr>) s"

definition begin_response :: "nat \<Rightarrow> AppState \<Rightarrow> AppState" where
  \<comment> \<open>the state while the stream is awaited: the flag is up, the placeholder is appended\<close>
  "begin_response now s =
     updateActiveConversation
       (\<lambda>c. c\<lparr>messages := messages c @ [modelPlaceholderMessage now], lastUpdated := now\<rparr>)
       (s\<lparr>isLoading := True, initialQuerySuggestions := []\<rparr>)"

definition consume_item ::
    "string \<Rightarrow> string \<Rightarrow> StreamItem \<Rightarrow> StreamAcc \<times> AppState \<Rightarrow> StreamAcc \<times> AppState" where
  \<comment> \<open>the body of \<open>for await (const chunk of stream)\<close>\<close>
  "consume_item cid pid chunk st =
     (case st of (acc, s) \<Rightarrow>
        (case (case textChunk chunk of
                 None \<Rightarrow> (acc, s)
               | Some t \<Rightarrow>
                   if truthy t
                   then (acc\<lparr>fullText := fullText acc @ t\<rparr>,
                         update_message cid pid (\<lambda>msg. msg\<lparr>msg_text := fullText acc @ t\<rparr>) s)
                   else (acc, s)) of
           (acc1, s1) \<Rightarrow>
             let acc2 = (case item_citations chunk of None \<Rightarrow> acc1
                         | Some cs \<Rightarrow> acc1\<lparr>finalCitations := Some cs\<rparr>);
                 acc3 = (case item_urlContextMetadata chunk of None \<Rightarrow> acc2
                         | Some ms \<Rightarrow> acc2\<lparr>finalUrlContext := Some ms\<rparr>)
             in (acc3, s1)))"

definition finish_response :: "string \<Rightarrow> string \<Rightarrow> StreamAcc \<Rightarrow> AppState \<Rightarrow> AppState" where
  \<comment> \<open>after the loop: the final update, then \<open>speakText(fullText)\<close>\<close>
  "finish_response cid pid acc s =
     (update_message cid pid
        (\<lambda>msg. msg\<lparr>msg_text := fullText acc, msg_isLoading := Some False,
                   citations := finalCitations acc, urlContext := finalUrlContext acc\<rparr>) s)
       \<lparr>spoken := spoken s @ [fullText acc]\<rparr>"

definition fail_response :: "string \<Rightarrow> ChatMessage \<Rightarrow> string \<Rightarrow> AppState \<Rightarrow> AppState" where
  \<comment> \<open>the \<open>catch\<close>; \<open>e\<close> is \<open>e.message\<close>\<close>
  "fail_response cid placeholder e s =
     update_message cid (msg_id placeholder)
       (\<lambda>msg. placeholder
                 \<lparr>msg_text := ''Error: '' @ (if truthy e then e else ''Failed to get response from AI.''),
                  sender := SYSTEM, msg_isLoading := Some False\<rparr>) s"

definition triggerModelResponse :: "Env \<Rightarrow> nat \<Rightarrow> ChatMessage list \<Rightarrow> AppState \<Rightarrow> AppState" where
  \<comment> \<open>up to the first \<open>await\<close>: the guards, the placeholder, and the call of the generator, whose
      request is logged here\<close>
  "triggerModelResponse env now historyForApi s =
     (if isLoading s \<or> isFetchingSuggestions s then s
      else if \<not> key_configured env
        then updateActiveConversation (\<lambda>c. c\<lparr>messages := messages c @ [apiKeyErrorMessage now]\<rparr>) s
      else
        let gen = generateContentStreamWithUrlContext env historyForApi
                    (contextUrls s) (contextFiles s) (lang env)
        in (begin_response now s)
             \<lparr>network := network s @ calls gen,
              pending := pending s @
                [\<lparr>r_conversation = activeConversationId s,
                  r_placeholder = modelPlaceholderMessage now,
                  r_acc = \<lparr>fullText = [], finalCitations = None, finalUrlContext = None\<rparr>,
                  r_items = yielded gen, r_thrown = thrown gen\<rparr>]\<rparr>)"

definition resume :: "nat \<Rightarrow> AppState \<Rightarrow> AppState" where
  \<comment> \<open>the activation at position \<open>i\<close> goes on: with the next item of its stream through the body
      of the loop, or, the stream being exhausted, through the rest of the function\<close>
  "resume i s =
     (if i < length (pending s) then
        let r = pending s ! i; cid = r_conversation r; pid = msg_id (r_placeholder r) in
        (case r_items r of
           chunk # rest \<Rightarrow>
             (case consume_item cid pid chunk (r_acc r, s) of
                (acc', s') \<Rightarrow> s'\<lparr>pending := (pending s)[i := r\<lparr>r_acc := acc', r_items := rest\<rparr>]\<rparr>)
         | [] \<Rightarrow>
             (case r_thrown r of
                None \<Rightarrow> finish_response cid pid (r_acc r) s
              | Some e \<Rightarrow> fail_response cid (r_placeholder r) e s)
               \<lparr>isLoading := False, pending := take i (pending s) @ drop (Suc i) (pending s)\<rparr>)
      else s)"

definition settle :: "AppState \<Rightarrow> AppState" where
  \<comment> \<open>nothing happens but the streams being delivered: every waiting activation runs to its
      end, the oldest first\<close>
  "settle s = (resume 0 ^^ sum_list (map (\<lambda>r. Suc (length (r_items r))) (pending s))) s"

definition userMessage :: "nat \<Rightarrow> string \<Rightarrow> Attachment list \<Rightarrow> ChatMessage" where
  "userMessage now query atts =
     \<lparr>msg_id = ''user-'' @ show_nat now, msg_text = query, sender = USER, timestamp = now,
      msg_isLoading = None, urlContext = None,
      attachments = Some (filter (\<lambda>a. att_status a = Loaded) atts), citations = None\<rparr>"

definition handleSendMessage :: "Env \<Rightarrow> nat \<Rightarrow> string \<Rightarrow> Attachment list \<Rightarrow> AppState \<Rightarrow> AppState" where
  \<comment> \<open>like the two handlers of the next section, up to the first \<open>await\<close> of the response it
      triggers\<close>
  "handleSendMessage env now query atts s =
     (if (\<not> truthy (trim query) \<and> atts = []) \<or> isLoading s \<or> isFetchingSuggestions s then s
      else
        let newHistory = chatMessages s @ [userMessage now query atts]
        in triggerModelResponse env now newHistory
             (updateActiveConversation (\<lambda>c. c\<lparr>messages := newHistory\<rparr>) s))"

section \<open>Edit and regenerate (App.tsx)\<close>

definition handleEditMessage :: "Env \<Rightarrow> nat \<Rightarrow> string \<Rightarrow> string \<Rightarrow> AppState \<Rightarrow> AppState" where
  "handleEditMessage env now messageId newText s =
     (case findIndex (\<lambda>m. msg_id m = messageId) (chatMessages s) of
        None \<Rightarrow> s
      | Some messageIndex \<Rightarrow>
          if sender (chatMessages s ! messageIndex) \<noteq> USER then s
          else
            let truncatedHistory = take messageIndex (chatMessages s);
                editedMessage = (chatMessages s ! messageIndex)\<lparr>msg_text := newText, timestamp := now\<rparr>;
                newHistoryForApi = truncatedHistory @ [editedMessage]
            in triggerModelResponse env now newHistoryForApi
                 (updateActiveConversation
                    (\<lambda>c. c\<lparr>messages := newHistoryForApi, lastUpdated := now\<rparr>) s))"

definition handleRegenerateResponse :: "Env \<Rightarrow> nat \<Rightarrow> string \<Rightarrow> AppState \<Rightarrow> AppState" where
  "handleRegenerateResponse env now messageId s =
     (case findIndex (\<lambda>m. msg_id m = messageId) (chatMessages s) of
        None \<Rightarrow> s
      | Some messageIndex \<Rightarrow>
          if sender (chatMessages s ! messageIndex) \<noteq> MODEL then s
          else
            let newHistoryForApi = take messageIndex (chatMessages s)
            in triggerModelResponse env now newHistoryForApi
                 (updateActiveConversation
                    (\<lambda>c. c\<lparr>messages := newHistoryForApi, lastUpdated := now\<rparr>) s))"

section \<open>Attachments of the chat input (ChatInterface.tsx)\<close>


text \<open>
  The component's \<open>attachments\<close> state, and the ids of the placeholders whose \<open>FileReader\<close>
  has been started and has not answered yet. A reader answers once, with \<open>onload\<close> or with
  \<open>onerror\<close>.
\<close>

record ChatInput =
  ci_attachments :: "Attachment list"
  readers :: "string list"

definition set_attachment :: "string \<Rightarrow> (Attachment \<Rightarrow> Attachment) \<Rightarrow> ChatInput \<Rightarrow> ChatInput" where
  \<comment> \<open>\<open>setAttachments(prev => prev.map(att => att.id === id ? f(att) : att))\<close>\<close>
  "set_attachment i f ci =
     ci\<lparr>ci_attachments := map (\<lambda>att. if att_id att = i then f att else att) (ci_attachments ci)\<rparr>"

definition mark_error :: "string \<Rightarrow> Attachment \<Rightarrow> Attachment" where
  "mark_error msg att = att\<lparr>att_status := Error, att_errorMessage := Some msg\<rparr>"

definition mark_loaded :: "string \<Rightarrow> Attachment \<Rightarrow> Attachment" where
  "mark_loaded base64Data att = att\<lparr>att_status := Loaded, att_data := Some base64Data\<rparr>"

definition start_file :: "nat \<Rightarrow> File \<Rightarrow> ChatInput \<Rightarrow> ChatInput" where
  \<comment> \<open>the body of \<open>Array.from(files).forEach\<close> in \<open>handleFiles\<close>\<close>
  "start_file now f ci =
     (let placeholder = file_placeholder ''att'' now f in
      if file_type f \<notin> set supportedTypes
        then set_attachment (att_id placeholder) (mark_error ''Unsupported file type'') ci
      else ci\<lparr>readers := readers ci @ [att_id placeholder]\<rparr>)"

definition handleFiles :: "nat \<Rightarrow> File list \<Rightarrow> ChatInput \<Rightarrow> ChatInput" where
  "handleFiles now fs ci =
     fold (start_file now) fs
       (ci\<lparr>ci_attachments := ci_attachments ci @ map (file_placeholder ''att'' now) fs\<rparr>)"

definition reader_onload :: "string \<Rightarrow> string option \<Rightarrow> ChatInput \<Rightarrow> ChatInput" where
  \<comment> \<open>\<open>result\<close> is \<open>e.target?.result\<close>\<close>
  "reader_onload i result ci =
     (case (case result of None \<Rightarrow> None | Some r \<Rightarrow> second_field r) of
        Some base64Data \<Rightarrow>
          if truthy base64Data then set_attachment i (mark_loaded base64Data) ci
          else set_attachment i (mark_error ''Failed to read file'') ci
      | None \<Rightarrow> set_attachment i (mark_error ''Failed to read file'') ci)"

definition reader_onerror :: "string \<Rightarrow> ChatInput \<Rightarrow> ChatInput" where
  "reader_onerror i ci = set_attachment i (mark_error ''Failed to read file'') ci"










section \<open>Concrete inputs\<close>

definition conv0 :: Conversation where
  "conv0 = \<lparr>conv_id = ''conv-1'', conv_name = ''First'', urls = [], files = [], messages = [],
            lastUpdated = 1\<rparr>"

definition app0 :: AppState where
  "app0 = \<lparr>conversations = [conv0], activeConversationId = ''conv-1'', maxContextItems = 30,
           isLoading = False, isFetchingSuggestions = False, initialQuerySuggestions = [],
           spoken = [], network = [], pending = []\<rparr>"

definition app_one_url :: AppState where
  "app_one_url = app0\<lparr>conversations := [conv0\<lparr>urls := [''https://a.example/'']\<rparr>]\<rparr>"

definition ui_same_url :: KbUi where
  "ui_same_url = \<lparr>currentUrlInput = ''https://a.example/'', kb_error = None\<rparr>"





definition repository_ok :: "AppState \<Rightarrow> bool" where
  \<comment> \<open>there is a conversation, no id occurs twice, the active id is one of them\<close>
  "repository_ok s \<longleftrightarrow>
     conversations s \<noteq> [] \<and> distinct (map conv_id (conversations s)) \<and>
     activeConversationId s \<in> set (map conv_id (conversations s))"

text \<open>
  The states the application gets into when every new conversation is created at a reading of
  the clock that no listed conversation was created at, and the stored list has no id twice.
\<close>

inductive repository :: "AppState \<Rightarrow> bool" where
  started:
    "(case saved of None \<Rightarrow> True | Some parsed \<Rightarrow> distinct (map conv_id parsed)) \<Longrightarrow>
     repository (initialState t now saved savedActiveId maxItems)"
| created:
    "repository s \<Longrightarrow> ''conv-'' @ show_nat now \<notin> set (map conv_id (conversations s)) \<Longrightarrow>
     repository (handleNewConversation t now name s)"
| deleted: "repository s \<Longrightarrow> repository (handleDeleteConversation s)"
| selected:
    "repository s \<Longrightarrow> cid \<in> set (map conv_id (conversations s)) \<Longrightarrow>
     repository (setActiveConversationId cid s)"
| updated:
    "repository s \<Longrightarrow> (\<And>c. conv_id (updater c) = conv_id c) \<Longrightarrow>
     repository (updateConversation cid updater s)"
| other:
    "repository s \<Longrightarrow> conversations s' = conversations s \<Longrightarrow>
     activeConversationId s' = activeConversationId s \<Longrightarrow> repository s'"

definition cite :: "int \<Rightarrow> int \<Rightarrow> string \<Rightarrow> CitationSource" where
  "cite s e u = \<lparr>startIndex = Some s, endIndex = Some e, uri = Some u, license = None\<rparr>"

definition retrieved_u :: UrlContextMetadataItem where
  "retrieved_u = \<lparr>retrievedUrl = ''u'', urlRetrievalStatus = ''URL_RETRIEVAL_STATUS_SUCCESS''\<rparr>"

definition chunks_hello :: "Chunk list" where
  \<comment> \<open>\<open>Hel\<close>, then \<open>lo\<close> with one citation and the status of one retrieved URL\<close>
  "chunks_hello =
     [\<lparr>chunk_text = Some ''Hel'', candidates = None\<rparr>,
      \<lparr>chunk_text = Some ''lo'',
       candidates = Some [\<lparr>citationSources = Some [cite 0 5 ''u''],
                           urlMetadata = Some [retrieved_u]\<rparr>]\<rparr>]"

definition backend_hello :: Backend where
  "backend_hello =
     \<lparr>generateContentStream = (\<lambda>request. (chunks_hello, None)),
      generateContent = (\<lambda>prompt. Inr ''{}'')\<rparr>"

definition backend_silent :: Backend where
  \<comment> \<open>a backend whose stream ends before its first chunk\<close>
  "backend_silent =
     \<lparr>generateContentStream = (\<lambda>request. ([], None)), generateContent = (\<lambda>prompt. Inr ''{}'')\<rparr>"

definition decoders_plain :: Decoders where
  "decoders_plain = \<lparr>atob = Some, extractRawText = Some, sheets_csv = (\<lambda>d. Some [])\<rparr>"

definition env_nokey :: Env where
  "env_nokey = \<lparr>API_KEY = None, backend = backend_hello, decoders = decoders_plain, lang = en\<rparr>"

definition env_key :: Env where
  "env_key = env_nokey\<lparr>API_KEY := Some ''k''\<rparr>"

definition env_silent :: Env where
  "env_silent = env_key\<lparr>backend := backend_silent\<rparr>"






definition model_message :: "string \<Rightarrow> CitationSource list \<Rightarrow> ChatMessage" where
  "model_message t cs =
     \<lparr>msg_id = ''model-response-1'', msg_text = t, sender = MODEL, timestamp = 1,
      msg_isLoading = Some False, urlContext = None, attachments = None, citations = Some cs\<rparr>"

definition nested_msg :: ChatMessage where
  \<comment> \<open>the second range lies inside the first\<close>
  "nested_msg = model_message ''abcdefghij'' [cite 0 10 ''u'', cite 5 8 ''v'']"

definition two_cites_msg :: ChatMessage where
  "two_cites_msg = model_message ''hello world'' [cite 0 5 ''a'', cite 6 10 ''b'']"

definition deltas :: "Chunk list \<Rightarrow> string list" where
  \<comment> \<open>the text deltas of a stream: the texts of its chunks that are neither missing nor empty\<close>
  "deltas chunks =
     List.map_filter
       (\<lambda>c. case chunk_text c of None \<Rightarrow> None | Some t \<Rightarrow> if truthy t then Some t else None) chunks"

definition last_citations :: "Chunk list \<Rightarrow> CitationSource list option" where
  \<comment> \<open>the citation sources of the first candidate of the last chunk, if there is all that\<close>
  "last_citations chunks =
     (if chunks = [] then None
      else (case candidates (last chunks) of
              Some (candidate # others) \<Rightarrow> citationSources candidate
            | _ \<Rightarrow> None))"

definition last_urlMetadata :: "Chunk list \<Rightarrow> UrlContextMetadataItem list option" where
  \<comment> \<open>the URL metadata of the first candidate of the last chunk, if there is all that\<close>
  "last_urlMetadata chunks =
     (if chunks = [] then None
      else (case candidates (last chunks) of
              Some (candidate # others) \<Rightarrow> urlMetadata candidate
            | _ \<Rightarrow> None))"

definition finalized :: "nat \<Rightarrow> Chunk list \<Rightarrow> ChatMessage \<Rightarrow> ChatMessage" where
  \<comment> \<open>the last update of the response to a stream that ended without an error, on a message
      that carries the id of the placeholder\<close>
  "finalized now chunks msg =
     (if msg_id msg = msg_id (modelPlaceholderMessage now)
      then msg\<lparr>msg_text := concat (deltas chunks), msg_isLoading := Some False,
               citations := last_citations chunks, urlContext := last_urlMetadata chunks\<rparr>
      else msg)"

definition welcome_msg :: ChatMessage where
  "welcome_msg =
     \<lparr>msg_id = ''system-welcome-conv-1'', msg_text = ''Welcome'', sender = SYSTEM, timestamp = 1,
      msg_isLoading = None, urlContext = None, attachments = None, citations = None\<rparr>"

definition question :: ChatMessage where
  "question =
     \<lparr>msg_id = ''user-3'', msg_text = ''What is it?'', sender = USER, timestamp = 3,
      msg_isLoading = None, urlContext = None, attachments = Some [], citations = None\<rparr>"

definition answer :: ChatMessage where
  "answer = (modelPlaceholderMessage 4)\<lparr>msg_text := ''It is.'', msg_isLoading := Some False\<rparr>"

definition app_chat :: AppState where
  "app_chat = app0\<lparr>conversations := [conv0\<lparr>messages := [welcome_msg, question]\<rparr>]\<rparr>"

definition app_welcome :: AppState where
  "app_welcome = app0\<lparr>conversations := [conv0\<lparr>messages := [welcome_msg]\<rparr>]\<rparr>"

definition app_interrupted :: AppState where
  \<comment> \<open>a question is sent at time 3, the first item of the answer arrives, the user saves an edit
      of the question at time 9, and the rest of the stream is delivered\<close>
  "app_interrupted =
     settle (handleEditMessage env_key 9 ''user-3'' ''Edited''
               (resume 0 (handleSendMessage env_key 3 ''What is it?'' [] app_welcome)))"

definition app_streaming :: AppState where
  \<comment> \<open>the response to \<open>question\<close> is in flight: triggered, nothing delivered yet\<close>
  "app_streaming = triggerModelResponse env_key 4 [welcome_msg, question] app_chat"

definition app_streaming_again :: AppState where
  \<comment> \<open>a first answer is there, the response to a second question is in flight\<close>
  "app_streaming_again =
     triggerModelResponse env_key 8 [welcome_msg, question, answer, question\<lparr>msg_id := ''user-7''\<rparr>]
       (app0\<lparr>conversations := [conv0\<lparr>messages := [welcome_msg, question, answer, question\<lparr>msg_id := ''user-7''\<rparr>]\<rparr>]\<rparr>)"


definition unsupported :: "File \<Rightarrow> bool" where
  "unsupported f \<longleftrightarrow> file_type f \<notin> set supportedTypes"

definition started :: "nat \<Rightarrow> File \<Rightarrow> Attachment" where
  "started now f =
     (if unsupported f then mark_error ''Unsupported file type'' (file_placeholder ''att'' now f)
      else file_placeholder ''att'' now f)"



definition file_a :: File where
  "file_a = \<lparr>file_name = ''a.txt'', file_type = ''text/plain''\<rparr>"

definition ci_empty :: ChatInput where
  "ci_empty = \<lparr>ci_attachments = [], readers = []\<rparr>"


section \<open>Verified properties\<close>

subsection \<open>Helper facts\<close>

lemma find_map_update:
  "find (\<lambda>c. conv_id c = a) (map (\<lambda>c. if conv_id c = a then f c else c) cs) =
     map_option f (find (\<lambda>c. conv_id c = a) cs)" if "\<And>c. conv_id (f c) = conv_id c"
  using that by (induction cs) auto

lemma conversations_handleAddUrl:
  "conversations (handleAddUrl now url s) =
     map (\<lambda>c. if conv_id c = activeConversationId s \<and>
                  length (urls c) + length (files c) < maxContextItems s \<and> url \<notin> set (urls c)
               then c\<lparr>urls := urls c @ [url], lastUpdated := now\<rparr> else c) (conversations s)"
  by (auto simp: handleAddUrl_def updateActiveConversation_def)

lemma flags_updateActiveConversation [simp]:
  "isLoading (updateActiveConversation f s) = isLoading s"
  "isFetchingSuggestions (updateActiveConversation f s) = isFetchingSuggestions s"
  by (simp_all add: updateActiveConversation_def)

subsection \<open>Suggestions for an empty URL list\<close>

text \<open>
  C10. Whatever the environment (with or without an API key) and whatever the language, the
  suggestion fetcher called with no URL resolves to the fixed JSON text with the one
  placeholder suggestion, and no prompt reaches the backend.
\<close>

theorem empty_urls_placeholder_suggestion:
  \<open>getInitialSuggestions env [] language =
     (Inr ''{"suggestions":["Add some URLs to get topic suggestions."]}'', [])\<close>
  by (simp add: getInitialSuggestions_def)

subsection \<open>Adding a URL that is already there\<close>

text \<open>
  C8. When the URL typed into the panel is already in the active conversation's list, the click
  leaves the application state as it is and reports an error (the "exists" error, once the
  earlier checks pass). The handler of the application itself leaves every conversation that
  already holds the URL untouched, compared by equality of the strings, and never turns a
  duplicate-free list into one with a duplicate.
\<close>

theorem duplicate_url_rejected:
  "(currentUrlInput ui \<in> set (kb_urls s) \<longrightarrow>
      snd (handleAddUrlClick isValidUrl now (ui, s)) = s \<and>
      kb_error (fst (handleAddUrlClick isValidUrl now (ui, s))) \<noteq> None \<and>
      (truthy (trim (currentUrlInput ui)) \<and> isValidUrl (currentUrlInput ui) \<and>
         totalItems s < maxContextItems s \<longrightarrow>
       kb_error (fst (handleAddUrlClick isValidUrl now (ui, s))) = Some errorUrlExists))
   \<and> length (conversations (handleAddUrl now url s)) = length (conversations s)
   \<and> (\<forall>i < length (conversations s).
        (url \<in> set (urls (conversations s ! i)) \<longrightarrow>
           conversations (handleAddUrl now url s) ! i = conversations s ! i) \<and>
        (distinct (urls (conversations s ! i)) \<longrightarrow>
           distinct (urls (conversations (handleAddUrl now url s) ! i))))"
  by (simp add: handleAddUrlClick_def conversations_handleAddUrl)

theorem duplicate_url_rejected_witness:
  "currentUrlInput ui_same_url \<in> set (kb_urls app_one_url)
   \<and> truthy (trim (currentUrlInput ui_same_url)) \<and> totalItems app_one_url < maxContextItems app_one_url
   \<and> snd (handleAddUrlClick (\<lambda>u. True) 5 (ui_same_url, app_one_url)) = app_one_url
   \<and> kb_error (fst (handleAddUrlClick (\<lambda>u. True) 5 (ui_same_url, app_one_url))) = Some errorUrlExists
   \<and> (0::nat) < length (conversations app_one_url)
   \<and> ''https://a.example/'' \<in> set (urls (conversations app_one_url ! 0))
   \<and> distinct (urls (conversations app_one_url ! 0))
   \<and> conversations (handleAddUrl 5 ''https://a.example/'' app_one_url) ! 0 = conversations app_one_url ! 0
   \<and> distinct (urls (conversations (handleAddUrl 5 ''https://a.example/'' app_one_url) ! 0))"
proof -
  have in_list: "currentUrlInput ui_same_url \<in> set (kb_urls app_one_url)"
    by (simp add: ui_same_url_def app_one_url_def app0_def conv0_def kb_urls_def
        kb_activeConversation_def)
  have nonblank: "truthy (trim (currentUrlInput ui_same_url))"
    by (simp add: ui_same_url_def trim_def is_space_def truthy_def)
  have room: "totalItems app_one_url < maxContextItems app_one_url"
    by (simp add: app_one_url_def app0_def conv0_def totalItems_def kb_urls_def kb_files_def
        kb_activeConversation_def)
  have at0: "(0::nat) < length (conversations app_one_url)"
    "''https://a.example/'' \<in> set (urls (conversations app_one_url ! 0))"
    "distinct (urls (conversations app_one_url ! 0))"
    by (simp_all add: app_one_url_def app0_def conv0_def)
  show ?thesis
    using duplicate_url_rejected [of ui_same_url app_one_url "\<lambda>u. True" 5 "''https://a.example/''"]
      in_list nonblank room at0
    by blast
qed

subsection \<open>No credential, no request\<close>

lemma network_updateActiveConversation [simp]:
  "network (updateActiveConversation f s) = network s"
  by (simp add: updateActiveConversation_def)

lemma pending_updateActiveConversation [simp]:
  "pending (updateActiveConversation f s) = pending s"
  by (simp add: updateActiveConversation_def)

lemma find_none_map:
  "find (\<lambda>c. conv_id c = a) cs = None \<Longrightarrow> map (\<lambda>c. if conv_id c = a then f c else c) cs = cs"
  by (induction cs) (auto split: if_splits)

lemma chatMessages_update:
  assumes "\<And>c. conv_id (f c) = conv_id c"
  shows "chatMessages (updateActiveConversation f s) =
     (case find (\<lambda>c. conv_id c = activeConversationId s) (conversations s) of
        None \<Rightarrow> chatMessages s
      | Some c \<Rightarrow> messages (f c))"
proof (cases "find (\<lambda>c. conv_id c = activeConversationId s) (conversations s)")
  case None
  then show ?thesis
    by (simp add: updateActiveConversation_def find_none_map)
next
  case (Some c)
  then show ?thesis
    using find_map_update[of f "activeConversationId s" "conversations s", OF assms]
    by (simp add: chatMessages_def activeConversation_def updateActiveConversation_def)
qed

lemma chatMessages_found:
  "find (\<lambda>c. conv_id c = activeConversationId s) (conversations s) = Some c \<Longrightarrow>
   chatMessages s = messages c"
  by (simp add: chatMessages_def activeConversation_def)

lemma no_key_generator:
  "\<not> key_configured env \<Longrightarrow>
   generateContentStreamWithUrlContext env history us fs language =
     \<lparr>yielded = [], thrown = Some ''Gemini API Key not configured. Set process.env.API_KEY.'', calls = []\<rparr>"
  by (simp add: generateContentStreamWithUrlContext_def getAiInstance_def)

lemma no_key_trigger:
  "\<not> key_configured env \<Longrightarrow>
   triggerModelResponse env now history s =
     (if isLoading s \<or> isFetchingSuggestions s then s
      else updateActiveConversation (\<lambda>c. c\<lparr>messages := messages c @ [apiKeyErrorMessage now]\<rparr>) s)"
  by (simp add: triggerModelResponse_def)

lemma no_key_no_model_message:
  assumes "\<not> key_configured env"
  shows "filter (\<lambda>m. sender m = MODEL) (chatMessages (triggerModelResponse env now history s)) =
           filter (\<lambda>m. sender m = MODEL) (chatMessages s)"
    and "filter (\<lambda>m. sender m = MODEL) (chatMessages (handleSendMessage env now query atts s)) =
           filter (\<lambda>m. sender m = MODEL) (chatMessages s)"
proof -
  have err: "sender (apiKeyErrorMessage now) \<noteq> MODEL" by (simp add: apiKeyErrorMessage_def)
  have usr: "sender (userMessage now query atts) \<noteq> MODEL" by (simp add: userMessage_def)
  show "filter (\<lambda>m. sender m = MODEL) (chatMessages (triggerModelResponse env now history s)) =
           filter (\<lambda>m. sender m = MODEL) (chatMessages s)"
    using err by (auto simp: no_key_trigger[OF assms] chatMessages_update chatMessages_found
        split: option.splits)
  let ?s1 = "updateActiveConversation (\<lambda>c. c\<lparr>messages := chatMessages s @ [userMessage now query atts]\<rparr>) s"
  have f1: "find (\<lambda>c. conv_id c = activeConversationId ?s1) (conversations ?s1) =
      map_option (\<lambda>c. c\<lparr>messages := chatMessages s @ [userMessage now query atts]\<rparr>)
        (find (\<lambda>c. conv_id c = activeConversationId s) (conversations s))"
    using find_map_update[of "\<lambda>c. c\<lparr>messages := chatMessages s @ [userMessage now query atts]\<rparr>"
        "activeConversationId s" "conversations s"]
    by (simp add: updateActiveConversation_def)
  show "filter (\<lambda>m. sender m = MODEL) (chatMessages (handleSendMessage env now query atts s)) =
           filter (\<lambda>m. sender m = MODEL) (chatMessages s)"
    using err usr
    by (auto simp: handleSendMessage_def Let_def no_key_trigger[OF assms] chatMessages_update f1
        split: option.splits)
qed

text \<open>
  C7. Without a configured API key the streaming function yields nothing, throws the
  configuration error as its first step and sends no request. A response step or a send never
  adds a request to the network log, never leaves an activation waiting for a stream, and
  never changes which model messages the conversation shows. When no generation and no
  suggestion fetch is running, the response step does nothing but append the system message
  with the text that reports the missing key: no placeholder, no model message. A send with a
  text that is not blank, or with an attachment, then leaves the user's message followed by
  that system message; a send of a blank text without attachment changes nothing.
\<close>

theorem no_credential_no_network_call:
  assumes "\<not> key_configured env"
  shows "generateContentStreamWithUrlContext env history us fs language =
           \<lparr>yielded = [], thrown = Some ''Gemini API Key not configured. Set process.env.API_KEY.'',
            calls = []\<rparr>
       \<and> network (triggerModelResponse env now history s) = network s
       \<and> network (handleSendMessage env now query atts s) = network s
       \<and> pending (triggerModelResponse env now history s) = pending s
       \<and> pending (handleSendMessage env now query atts s) = pending s
       \<and> filter (\<lambda>m. sender m = MODEL) (chatMessages (triggerModelResponse env now history s)) =
           filter (\<lambda>m. sender m = MODEL) (chatMessages s)
       \<and> filter (\<lambda>m. sender m = MODEL) (chatMessages (handleSendMessage env now query atts s)) =
           filter (\<lambda>m. sender m = MODEL) (chatMessages s)
       \<and> (\<not> isLoading s \<and> \<not> isFetchingSuggestions s \<longrightarrow>
            triggerModelResponse env now history s =
              updateActiveConversation (\<lambda>c. c\<lparr>messages := messages c @ [apiKeyErrorMessage now]\<rparr>) s)
       \<and> (\<not> isLoading s \<and> \<not> isFetchingSuggestions s \<and> (truthy (trim query) \<or> atts \<noteq> []) \<longrightarrow>
            handleSendMessage env now query atts s =
              updateActiveConversation (\<lambda>c. c\<lparr>messages := messages c @ [apiKeyErrorMessage now]\<rparr>)
                (updateActiveConversation
                   (\<lambda>c. c\<lparr>messages := chatMessages s @ [userMessage now query atts]\<rparr>) s))
       \<and> (\<not> truthy (trim query) \<and> atts = [] \<longrightarrow> handleSendMessage env now query atts s = s)
       \<and> apiKeyErrorMessage now =
           \<lparr>msg_id = ''error-apikey-'' @ show_nat now,
            msg_text = ''ERROR: API Key (process.env.API_KEY) is not configured. Please set it up to send messages.'',
            sender = SYSTEM, timestamp = now, msg_isLoading = None, urlContext = None,
            attachments = None, citations = None\<rparr>"
proof -
  have msg: "apiKeyErrorMessage now =
           \<lparr>msg_id = ''error-apikey-'' @ show_nat now,
            msg_text = ''ERROR: API Key (process.env.API_KEY) is not configured. Please set it up to send messages.'',
            sender = SYSTEM, timestamp = now, msg_isLoading = None, urlContext = None,
            attachments = None, citations = None\<rparr>"
    by (simp add: apiKeyErrorMessage_def)
  have rest: "network (triggerModelResponse env now history s) = network s
       \<and> network (handleSendMessage env now query atts s) = network s
       \<and> pending (triggerModelResponse env now history s) = pending s
       \<and> pending (handleSendMessage env now query atts s) = pending s
       \<and> (\<not> isLoading s \<and> \<not> isFetchingSuggestions s \<longrightarrow>
            triggerModelResponse env now history s =
              updateActiveConversation (\<lambda>c. c\<lparr>messages := messages c @ [apiKeyErrorMessage now]\<rparr>) s)
       \<and> (\<not> isLoading s \<and> \<not> isFetchingSuggestions s \<and> (truthy (trim query) \<or> atts \<noteq> []) \<longrightarrow>
            handleSendMessage env now query atts s =
              updateActiveConversation (\<lambda>c. c\<lparr>messages := messages c @ [apiKeyErrorMessage now]\<rparr>)
                (updateActiveConversation
                   (\<lambda>c. c\<lparr>messages := chatMessages s @ [userMessage now query atts]\<rparr>) s))
       \<and> (\<not> truthy (trim query) \<and> atts = [] \<longrightarrow> handleSendMessage env now query atts s = s)"
    using assms by (simp add: no_key_trigger handleSendMessage_def Let_def)
  show ?thesis
    using no_key_generator[OF assms, of history us fs language]
      no_key_no_model_message(1)[OF assms, of now history s]
      no_key_no_model_message(2)[OF assms, of now query atts s] rest msg
    by blast
qed

theorem no_credential_no_network_call_witness:
  "\<not> key_configured env_nokey
   \<and> generateContentStreamWithUrlContext env_nokey [] [] [] en =
        \<lparr>yielded = [], thrown = Some ''Gemini API Key not configured. Set process.env.API_KEY.'',
         calls = []\<rparr>
   \<and> network (handleSendMessage env_nokey 5 ''hi'' [] app0) = network app0
   \<and> pending (handleSendMessage env_nokey 5 ''hi'' [] app0) = pending app0
   \<and> \<not> isLoading app0 \<and> \<not> isFetchingSuggestions app0 \<and> truthy (trim ''hi'')
   \<and> triggerModelResponse env_nokey 5 [] app0 =
        updateActiveConversation (\<lambda>c. c\<lparr>messages := messages c @ [apiKeyErrorMessage 5]\<rparr>) app0
   \<and> chatMessages (handleSendMessage env_nokey 5 ''hi'' [] app0) =
        [userMessage 5 ''hi'' [], apiKeyErrorMessage 5]
   \<and> map msg_text (chatMessages (handleSendMessage env_nokey 5 ''hi'' [] app0)) =
        [''hi'', ''ERROR: API Key (process.env.API_KEY) is not configured. Please set it up to send messages.'']
   \<and> map sender (chatMessages (handleSendMessage env_nokey 5 ''hi'' [] app0)) = [USER, SYSTEM]
   \<and> \<not> truthy (trim [CHR 0xA0, CHR '' ''])
   \<and> handleSendMessage env_nokey 5 [CHR 0xA0, CHR '' ''] [] app0 = app0"
proof -
  have nokey: "\<not> key_configured env_nokey"
    by (simp add: key_configured_def env_nokey_def)
  have idle: "\<not> isLoading app0 \<and> \<not> isFetchingSuggestions app0"
    by (simp add: app0_def)
  have nonblank: "truthy (trim ''hi'')"
    by (simp add: trim_def is_space_def truthy_def)
  have blank: "\<not> truthy (trim [CHR 0xA0, CHR '' ''])"
    by (simp add: trim_def is_space_def truthy_def)
  have msgs: "chatMessages
      (updateActiveConversation (\<lambda>c. c\<lparr>messages := messages c @ [apiKeyErrorMessage 5]\<rparr>)
        (updateActiveConversation
           (\<lambda>c. c\<lparr>messages := chatMessages app0 @ [userMessage 5 ''hi'' []]\<rparr>) app0)) =
      [userMessage 5 ''hi'' [], apiKeyErrorMessage 5]"
    by (simp add: chatMessages_def activeConversation_def updateActiveConversation_def app0_def
        conv0_def)
  have user: "msg_text (userMessage 5 ''hi'' []) = ''hi''" "sender (userMessage 5 ''hi'' []) = USER"
    by (simp_all add: userMessage_def)
  note inst = no_credential_no_network_call [OF nokey, of "[]" "[]" "[]" en 5 app0]
  have err: "msg_text (apiKeyErrorMessage 5) =
      ''ERROR: API Key (process.env.API_KEY) is not configured. Please set it up to send messages.''"
    "sender (apiKeyErrorMessage 5) = SYSTEM"
    using inst [of "''hi''" "[]"] by simp_all
  show ?thesis
    using inst [of "''hi''" "[]"] inst [of "[CHR 0xA0, CHR '' '']" "[]"]
      nokey idle nonblank blank msgs user err
    by simp
qed

subsection \<open>Deleting a conversation\<close>

lemma findIndex_Some:
  "findIndex p xs = Some i \<Longrightarrow> i < length xs \<and> p (xs ! i) \<and> (\<forall>j < i. \<not> p (xs ! j))"
proof (induction xs arbitrary: i)
  case Nil
  then show ?case by simp
next
  case (Cons x xs)
  show ?case
  proof (cases "p x")
    case True
    then show ?thesis using Cons.prems by simp
  next
    case False
    then obtain k where k: "findIndex p xs = Some k" "i = Suc k"
      using Cons.prems by (auto split: if_splits)
    from Cons.IH[OF k(1)] False k(2) show ?thesis
      by (auto simp: nth_Cons split: nat.splits)
  qed
qed

lemma filter_notin: "a \<notin> f ` set xs \<Longrightarrow> filter (\<lambda>c. f c \<noteq> a) xs = xs"
  by (induction xs) auto

lemma filter_out_at:
  "distinct (map f xs) \<Longrightarrow> i < length xs \<Longrightarrow>
   filter (\<lambda>c. f c \<noteq> f (xs ! i)) xs = take i xs @ drop (Suc i) xs"
proof (induction xs arbitrary: i)
  case Nil
  then show ?case by simp
next
  case (Cons x xs)
  show ?case
  proof (cases i)
    case 0
    have "filter (\<lambda>c. f c \<noteq> f x) xs = xs"
      using Cons.prems(1) by (simp add: filter_notin)
    then show ?thesis using 0 by simp
  next
    case (Suc k)
    have "f x \<noteq> f (xs ! k)" using Cons.prems Suc by auto
    then show ?thesis using Cons.IH[of k] Cons.prems Suc by simp
  qed
qed

lemma nth_map_mem: "k < length xs \<Longrightarrow> f (xs ! k) \<in> set (map f xs)"
  by simp

lemma length_filter_distinct:
  "distinct (map f xs) \<Longrightarrow> length xs \<le> Suc (length (filter (\<lambda>c. f c \<noteq> a) xs))"
  by (induction xs) (auto simp: filter_notin)



text \<open>
  The two hypotheses of C5 hold in the states of \<open>repository\<close>: ids come from the clock, and
  they stay pairwise distinct as long as no two conversations are created at one reading of
  it; the active id is then always the id of a listed conversation.
\<close>

lemma distinct_map_insort:
  "distinct (map g (insort_key f x xs)) \<longleftrightarrow> g x \<notin> g ` set xs \<and> distinct (map g xs)"
  by (induction xs) (auto simp: set_insort_key)

lemma distinct_map_sort: "distinct (map g (sort_key f xs)) = distinct (map g xs)"
  by (induction xs) (simp_all add: sort_key_simps distinct_map_insort)

lemma started_ok:
  assumes "case saved of None \<Rightarrow> True | Some parsed \<Rightarrow> distinct (map conv_id parsed)"
  shows "repository_ok (initialState t now saved savedActiveId maxItems)"
proof -
  define loaded where "loaded = (case saved of None \<Rightarrow> [] | Some parsed \<Rightarrow> map restore parsed)"
  define sorted where "sorted = sort_key (\<lambda>c. - int (lastUpdated c)) loaded"
  have ids: "map conv_id loaded = (case saved of None \<Rightarrow> [] | Some parsed \<Rightarrow> map conv_id parsed)"
    by (simp add: loaded_def restore_def comp_def split: option.splits)
  have d: "distinct (map conv_id loaded)"
    unfolding ids using assms by (simp split: option.splits)
  have ld: "loadInitialState t now saved savedActiveId =
      (if loaded = [] then
         ([\<lparr>conv_id = ''conv-'' @ show_nat now, conv_name = t ''myFirstConversation'' None,
            urls = [], files = [],
            messages = [welcome_message (''conv-'' @ show_nat now)
                          (t ''welcomeMessage'' (Some (t ''myFirstConversation'' None))) now],
            lastUpdated = now\<rparr>],
          ''conv-'' @ show_nat now)
       else
         (sorted,
          case savedActiveId of
            None \<Rightarrow> conv_id (hd sorted)
          | Some a \<Rightarrow>
              if truthy a \<and> (\<exists>c \<in> set sorted. conv_id c = a) then a else conv_id (hd sorted)))"
    unfolding loadInitialState_def Let_def loaded_def sorted_def by (rule refl)
  show ?thesis
  proof (cases "loaded = []")
    case True
    then show ?thesis
      by (simp add: repository_ok_def initialState_def ld)
  next
    case False
    have "length sorted = length loaded" unfolding sorted_def by (rule length_sort)
    then have ne: "sorted \<noteq> []" using False by (metis length_0_conv)
    then have "hd sorted \<in> set sorted" by (rule hd_in_set)
    then have hd: "conv_id (hd sorted) \<in> conv_id ` set sorted" by (rule imageI)
    have ds: "distinct (map conv_id sorted)"
      unfolding sorted_def using d by (simp only: distinct_map_sort)
    have c: "conversations (initialState t now saved savedActiveId maxItems) = sorted"
      using False by (simp add: initialState_def ld)
    have a: "activeConversationId (initialState t now saved savedActiveId maxItems) =
        (case savedActiveId of
            None \<Rightarrow> conv_id (hd sorted)
          | Some a \<Rightarrow>
              if truthy a \<and> (\<exists>c \<in> set sorted. conv_id c = a) then a else conv_id (hd sorted))"
      using False by (simp add: initialState_def ld)
    have "activeConversationId (initialState t now saved savedActiveId maxItems)
            \<in> conv_id ` set sorted"
      unfolding a using hd by (cases savedActiveId) auto
    then show ?thesis
      using ne ds unfolding repository_ok_def c by simp
  qed
qed

lemma created_ok:
  assumes "repository_ok s" "''conv-'' @ show_nat now \<notin> set (map conv_id (conversations s))"
  shows "repository_ok (handleNewConversation t now name s)"
proof (cases "truthy (trim name)")
  case False
  then show ?thesis using assms(1) by (simp add: handleNewConversation_def)
next
  case True
  let ?id = "''conv-'' @ show_nat now"
  let ?nc = "\<lparr>conv_id = ?id, conv_name = trim name, urls = [], files = [],
               messages = [welcome_message ?id (t ''newChatCreated'' (Some (trim name))) now],
               lastUpdated = now\<rparr>"
  let ?new = "sort_key (\<lambda>c. - int (lastUpdated c)) (conversations s @ [?nc])"
  have st: "handleNewConversation t now name s = s\<lparr>conversations := ?new, activeConversationId := ?id\<rparr>"
    using True by (simp add: handleNewConversation_def Let_def)
  have d: "distinct (map conv_id (conversations s @ [?nc]))"
    using assms by (simp add: repository_ok_def)
  have 1: "distinct (map conv_id ?new)"
    using d by (simp only: distinct_map_sort)
  have "length ?new = Suc (length (conversations s))" by simp
  then have 2: "?new \<noteq> []" by (metis length_0_conv nat.distinct(1))
  have "set ?new = set (conversations s @ [?nc])" by (rule set_sort)
  then have "?nc \<in> set ?new" by simp
  then have "conv_id ?nc \<in> conv_id ` set ?new" by (rule imageI)
  then have 3: "?id \<in> set (map conv_id ?new)" by simp
  show ?thesis
    unfolding st repository_ok_def using 1 2 3 by simp
qed

lemma findIndex_ex: "\<exists>x \<in> set xs. p x \<Longrightarrow> \<exists>i. findIndex p xs = Some i"
  by (induction xs) auto

lemma deleted_ok:
  assumes "repository_ok s"
  shows "repository_ok (handleDeleteConversation s)"
proof (cases "length (conversations s) \<le> 1")
  case True
  then show ?thesis using assms by (simp add: handleDeleteConversation_def)
next
  case False
  let ?cs = "conversations s"
  let ?new = "filter (\<lambda>c. conv_id c \<noteq> activeConversationId s) ?cs"
  have d: "distinct (map conv_id ?cs)" using assms by (simp add: repository_ok_def)
  have len: "1 \<le> length ?new"
    using length_filter_distinct[OF d, of "activeConversationId s"] False by simp
  have "\<exists>x \<in> set ?cs. conv_id x = activeConversationId s"
    using assms by (auto simp: repository_ok_def)
  from findIndex_ex[OF this]
  obtain i where i: "findIndex (\<lambda>c. conv_id c = activeConversationId s) ?cs = Some i" by blast
  from findIndex_Some[OF i] have il: "i < length ?cs" "conv_id (?cs ! i) = activeConversationId s"
    by simp_all
  have flt: "?new = take i ?cs @ drop (Suc i) ?cs"
    using filter_out_at[OF d il(1)] il(2) by simp
  have ln: "length ?new = length ?cs - 1" unfolding flt using il(1) by simp
  have idx: "i - 1 < length ?new" using False il(1) unfolding ln by (cases i) simp_all
  have st: "handleDeleteConversation s =
      s\<lparr>conversations := ?new, activeConversationId := conv_id (?new ! (i - 1))\<rparr>"
    using False i il flt ln idx by (simp add: handleDeleteConversation_def Let_def)
  have "conv_id (?new ! (i - 1)) \<in> set (map conv_id ?new)"
    by (rule nth_map_mem[OF idx])
  moreover have "distinct (map conv_id ?new)" using d by (simp add: distinct_map_filter)
  moreover have "?new \<noteq> []" using len by auto
  ultimately show ?thesis unfolding st repository_ok_def by simp
qed

lemma updated_ok:
  assumes "repository_ok s" "\<And>c. conv_id (updater c) = conv_id c"
  shows "repository_ok (updateConversation cid updater s)"
proof -
  have "map conv_id (map (\<lambda>c. if conv_id c = cid then updater c else c) (conversations s)) =
      map conv_id (conversations s)"
    using assms(2) by (simp add: comp_def if_distrib cong: if_cong)
  then show ?thesis
    using assms(1) unfolding repository_ok_def updateConversation_def
    by (simp del: map_map)
qed

lemma repository_ids: "repository s \<Longrightarrow> repository_ok s"
proof (induction rule: repository.induct)
  case (started saved t now savedActiveId maxItems)
  then show ?case by (rule started_ok)
next
  case (created s now t name)
  then show ?case by (simp add: created_ok)
next
  case (deleted s)
  then show ?case by (simp add: deleted_ok)
next
  case (selected s cid)
  then show ?case by (simp add: repository_ok_def setActiveConversationId_def)
next
  case (updated s updater cid)
  then show ?case by (simp add: updated_ok)
next
  case (other s s')
  then show ?case by (simp add: repository_ok_def)
qed

lemma find_in_set: "find p xs = Some c \<Longrightarrow> c \<in> set xs"
  by (induction xs) (auto split: if_splits)

lemma find_exists: "\<exists>x \<in> set xs. p x \<Longrightarrow> \<exists>c. find p xs = Some c"
  by (induction xs) auto

lemma repository_active:
  assumes "repository s"
  shows "\<exists>c. kb_activeConversation s = Some c \<and> c \<in> set (conversations s)"
proof -
  from repository_ids[OF assms]
  have "\<exists>x \<in> set (conversations s). conv_id x = activeConversationId s"
    by (auto simp: repository_ok_def)
  from find_exists[OF this]
  obtain c where c: "find (\<lambda>c. conv_id c = activeConversationId s) (conversations s) = Some c"
    by blast
  from find_in_set[OF c] c show ?thesis
    by (simp add: kb_activeConversation_def)
qed


subsection \<open>The context limit\<close>

lemma kb_active_update:
  assumes "\<And>c. conv_id (f c) = conv_id c"
  shows "kb_activeConversation (updateActiveConversation f s) = map_option f (kb_activeConversation s)"
  using find_map_update[of f "activeConversationId s" "conversations s", OF assms]
  by (simp add: kb_activeConversation_def updateActiveConversation_def)



lemma max_handleAddUrl [simp]: "maxContextItems (handleAddUrl now url s) = maxContextItems s"
  by (simp add: handleAddUrl_def updateActiveConversation_def)

lemma max_handleAddFiles [simp]: "maxContextItems (handleAddFiles now fs s) = maxContextItems s"
  by (simp add: handleAddFiles_def updateActiveConversation_def)

lemma max_click [simp]:
  "maxContextItems (snd (handleAddUrlClick isValidUrl now (ui, s))) = maxContextItems s"
  by (simp add: handleAddUrlClick_def)

lemma max_files_selected [simp]:
  "maxContextItems (snd (handleFilesSelected now sel (ui, s))) = maxContextItems s"
  by (simp add: handleFilesSelected_def split: option.splits prod.splits)












subsection \<open>Citation markers\<close>

lemma position_append_in: "x \<in> set xs \<Longrightarrow> position x (xs @ ys) = position x xs"
  by (induction xs) auto

lemma position_append_notin: "x \<notin> set xs \<Longrightarrow> position x (xs @ ys) = length xs + position x ys"
  by (induction xs) auto

lemma map_of_numbered:
  "map_of (numbered seen) u = (if u \<in> set seen then Some (Suc (position u seen)) else None)"
  by (simp add: numbered_def map_of_map_restrict restrict_map_def)

lemma numbered_snoc:
  "u \<notin> set seen \<Longrightarrow> numbered (seen @ [u]) = numbered seen @ [(u, Suc (length seen))]"
  by (simp add: numbered_def position_append_in position_append_notin)

lemma getSourceNumber_seen:
  "u \<in> set seen \<Longrightarrow>
   getSourceNumber u (numbered seen, Suc (length seen)) =
     (Suc (position u seen), (numbered seen, Suc (length seen)))"
  by (simp add: getSourceNumber_def map_of_numbered)

lemma getSourceNumber_new:
  "u \<notin> set seen \<Longrightarrow>
   getSourceNumber u (numbered seen, Suc (length seen)) =
     (Suc (length seen), (numbered (seen @ [u]), Suc (length (seen @ [u]))))"
  by (simp add: getSourceNumber_def map_of_numbered numbered_snoc)

lemma unseen_Cons_in: "u \<in> set seen \<Longrightarrow> unseen seen (u # us) = unseen seen us"
  by (auto simp: unseen_def removeAll_filter_not_eq intro: filter_cong)

lemma unseen_Cons_notin: "u \<notin> set seen \<Longrightarrow> unseen seen (u # us) = u # unseen (seen @ [u]) us"
  by (auto simp: unseen_def removeAll_filter_not_eq intro: filter_cong)

lemma unseen_nil: "unseen [] us = first_seen us"
  by (simp add: unseen_def)

lemma numbering_gen:
  "numbering cs (numbered seen, Suc (length seen)) =
     map (\<lambda>c. Suc (position (c_uri c) (seen @ unseen seen (map c_uri cs)))) cs"
proof (induction cs arbitrary: seen)
  case Nil
  then show ?case by simp
next
  case (Cons c cs)
  show ?case
  proof (cases "c_uri c \<in> set seen")
    case True
    then show ?thesis
      using Cons.IH[of seen] by (simp add: getSourceNumber_seen unseen_Cons_in position_append_in)
  next
    case False
    have "numbering (c # cs) (numbered seen, Suc (length seen)) =
        Suc (length seen) # numbering cs (numbered (seen @ [c_uri c]), Suc (length (seen @ [c_uri c])))"
      using False by (simp add: getSourceNumber_new del: length_append)
    then show ?thesis
      using False Cons.IH[of "seen @ [c_uri c]"]
      by (simp add: unseen_Cons_notin position_append_notin)
  qed
qed

lemma sources_gen:
  "snd (fold insert_marker cs (p, (numbered seen, Suc (length seen)))) =
     (numbered (seen @ unseen seen (map c_uri cs)), Suc (length (seen @ unseen seen (map c_uri cs))))"
proof (induction cs arbitrary: seen p)
  case Nil
  then show ?case by (simp add: unseen_def)
next
  case (Cons c cs)
  show ?case
  proof (cases "c_uri c \<in> set seen")
    case True
    then show ?thesis
      using Cons.IH[of _ seen] by (simp add: insert_marker_def getSourceNumber_seen unseen_Cons_in)
  next
    case False
    then show ?thesis
      using Cons.IH[of _ "seen @ [c_uri c]"]
      by (simp add: insert_marker_def getSourceNumber_new unseen_Cons_notin del: length_append)
  qed
qed

lemma numbering_first_seen:
  "numbering cs ([], 1) = map (\<lambda>c. Suc (position (c_uri c) (first_seen (map c_uri cs)))) cs"
  using numbering_gen[of cs "[]"] by (simp add: numbered_def unseen_nil)

lemma sources_first_seen:
  "snd (apply_citations t cs) =
     (numbered (first_seen (map c_uri cs)), Suc (length (first_seen (map c_uri cs))))"
  using sources_gen[of cs t "[]"] by (simp add: numbered_def unseen_nil apply_citations_def)

text \<open>
  The number a marker carries is the one \<open>numbering\<close> lists: both thread \<open>getSourceNumber\<close>
  through the citations in the same order.
\<close>

lemma insert_marker_number:
  "insert_marker c (p, st) =
     (slice_to p (c_end c) @ injection (c_uri c) (hd (numbering [c] st)) @ slice_from p (c_end c),
      snd (getSourceNumber (c_uri c) st))"
  by (simp add: insert_marker_def split: prod.splits)

text \<open>
  C4. The citations are processed by descending \<open>startIndex\<close>, and the number of a citation is
  one more than the position of its \<open>uri\<close> among the uris in order of first occurrence in that
  processing order; the source map lists these uris with the numbers 1, 2, ... . So two
  citations with the same uri carry the same number and the first citation processed carries
  the number 1. In \<open>hello world\<close> with a citation of \<open>a\<close> on 0..5 and of \<open>b\<close> on 6..10, the
  citation that comes last in the text is numbered 1 and the first one 2.
\<close>

theorem source_numbers_first_seen:
  "sorted (map (\<lambda>c. - c_start c) (sortedCitations cits))
   \<and> numbering (sortedCitations cits) ([], 1) =
       map (\<lambda>c. Suc (position (c_uri c) (first_seen (map c_uri (sortedCitations cits)))))
         (sortedCitations cits)
   \<and> snd (apply_citations t (sortedCitations cits)) =
       (numbered (first_seen (map c_uri (sortedCitations cits))),
        Suc (length (first_seen (map c_uri (sortedCitations cits)))))
   \<and> (\<forall>i < length (sortedCitations cits). \<forall>j < length (sortedCitations cits).
        c_uri (sortedCitations cits ! i) = c_uri (sortedCitations cits ! j) \<longrightarrow>
        numbering (sortedCitations cits) ([], 1) ! i = numbering (sortedCitations cits) ([], 1) ! j)
   \<and> (sortedCitations cits \<noteq> [] \<longrightarrow> numbering (sortedCitations cits) ([], 1) ! 0 = 1)
   \<and> sortedCitations [cite 0 5 ''a'', cite 6 10 ''b''] =
        [\<lparr>c_start = 6, c_end = 10, c_uri = ''b''\<rparr>, \<lparr>c_start = 0, c_end = 5, c_uri = ''a''\<rparr>]
   \<and> numbering (sortedCitations [cite 0 5 ''a'', cite 6 10 ''b'']) ([], 1) = [1, 2]
   \<and> renderMessageContent two_cites_msg =
        CitedMarkup (''hello'' @ injection ''a'' 2 @ '' worl'' @ injection ''b'' 1 @ ''d'')
          [(''b'', 1), (''a'', 2)]"
proof (intro conjI)
  show "sorted (map (\<lambda>c. - c_start c) (sortedCitations cits))"
    by (simp add: sortedCitations_def)
  show "numbering (sortedCitations cits) ([], 1) =
       map (\<lambda>c. Suc (position (c_uri c) (first_seen (map c_uri (sortedCitations cits)))))
         (sortedCitations cits)"
    by (rule numbering_first_seen)
  show "snd (apply_citations t (sortedCitations cits)) =
       (numbered (first_seen (map c_uri (sortedCitations cits))),
        Suc (length (first_seen (map c_uri (sortedCitations cits)))))"
    by (rule sources_first_seen)
  show "\<forall>i < length (sortedCitations cits). \<forall>j < length (sortedCitations cits).
        c_uri (sortedCitations cits ! i) = c_uri (sortedCitations cits ! j) \<longrightarrow>
        numbering (sortedCitations cits) ([], 1) ! i = numbering (sortedCitations cits) ([], 1) ! j"
    unfolding numbering_first_seen by simp
  show "sortedCitations cits \<noteq> [] \<longrightarrow> numbering (sortedCitations cits) ([], 1) ! 0 = 1"
    unfolding numbering_first_seen by (cases "sortedCitations cits") simp_all
  show "sortedCitations [cite 0 5 ''a'', cite 6 10 ''b''] =
        [\<lparr>c_start = 6, c_end = 10, c_uri = ''b''\<rparr>, \<lparr>c_start = 0, c_end = 5, c_uri = ''a''\<rparr>]"
    by code_simp
  show "numbering (sortedCitations [cite 0 5 ''a'', cite 6 10 ''b'']) ([], 1) = [1, 2]"
    by code_simp
  show "renderMessageContent two_cites_msg =
        CitedMarkup (''hello'' @ injection ''a'' 2 @ '' worl'' @ injection ''b'' 1 @ ''d'')
          [(''b'', 1), (''a'', 2)]"
    by code_simp
qed

theorem source_numbers_first_seen_witness:
  "(0::nat) < length (sortedCitations [cite 0 5 ''a'', cite 6 10 ''b'', cite 2 3 ''b''])
   \<and> (2::nat) < length (sortedCitations [cite 0 5 ''a'', cite 6 10 ''b'', cite 2 3 ''b''])
   \<and> c_uri (sortedCitations [cite 0 5 ''a'', cite 6 10 ''b'', cite 2 3 ''b''] ! 0) =
       c_uri (sortedCitations [cite 0 5 ''a'', cite 6 10 ''b'', cite 2 3 ''b''] ! 1)
   \<and> numbering (sortedCitations [cite 0 5 ''a'', cite 6 10 ''b'', cite 2 3 ''b'']) ([], 1) ! 0 =
       numbering (sortedCitations [cite 0 5 ''a'', cite 6 10 ''b'', cite 2 3 ''b'']) ([], 1) ! 1
   \<and> sortedCitations [cite 0 5 ''a'', cite 6 10 ''b'', cite 2 3 ''b''] \<noteq> []
   \<and> numbering (sortedCitations [cite 0 5 ''a'', cite 6 10 ''b'', cite 2 3 ''b'']) ([], 1) ! 0 = 1"
proof -
  have h: "(0::nat) < length (sortedCitations [cite 0 5 ''a'', cite 6 10 ''b'', cite 2 3 ''b''])"
    "(1::nat) < length (sortedCitations [cite 0 5 ''a'', cite 6 10 ''b'', cite 2 3 ''b''])"
    "(2::nat) < length (sortedCitations [cite 0 5 ''a'', cite 6 10 ''b'', cite 2 3 ''b''])"
    "c_uri (sortedCitations [cite 0 5 ''a'', cite 6 10 ''b'', cite 2 3 ''b''] ! 0) =
       c_uri (sortedCitations [cite 0 5 ''a'', cite 6 10 ''b'', cite 2 3 ''b''] ! 1)"
    "sortedCitations [cite 0 5 ''a'', cite 6 10 ''b'', cite 2 3 ''b''] \<noteq> []"
    by code_simp+
  show ?thesis
    using source_numbers_first_seen [of "[cite 0 5 ''a'', cite 6 10 ''b'', cite 2 3 ''b'']" "[]"] h
    by blast
qed

lemma offsets_intact_when_ends_descend:
  "sorted_wrt (\<lambda>a b. c_end b \<le> c_end a) cs \<Longrightarrow> \<forall>c\<in>set cs. 0 \<le> c_end c \<and> c_end c \<le> int m \<Longrightarrow>
   m \<le> length original \<Longrightarrow> take m p = take m original \<Longrightarrow> offsets_intact original (p, st) cs"
proof (induction cs arbitrary: p st m)
  case Nil
  then show ?case by simp
next
  case (Cons c cs)
  define e where "e = nat (c_end c)"
  have e: "e \<le> m" "c_end c = int e" using Cons.prems(2) by (auto simp: e_def)
  have lenp: "m \<le> length p"
    using Cons.prems(3,4) by (metis length_take min.absorb2 min.cobounded1)
  have te: "take e p = take e original"
    using Cons.prems(4) e(1) by (metis min.absorb1 take_take)
  have 1: "offset_intact original p c"
    using te e lenp Cons.prems(3) by (simp add: offset_intact_def slice_to_def js_index_def)
  obtain n st' where g: "getSourceNumber (c_uri c) st = (n, st')" by (cases "getSourceNumber (c_uri c) st")
  have im: "insert_marker c (p, st) = (take e p @ injection (c_uri c) n @ drop e p, st')"
    using g e lenp by (simp add: insert_marker_def slice_to_def slice_from_def js_index_def)
  have "offsets_intact original (take e p @ injection (c_uri c) n @ drop e p, st') cs"
  proof (rule Cons.IH[where m = e])
    show "sorted_wrt (\<lambda>a b. c_end b \<le> c_end a) cs" using Cons.prems(1) by simp
    show "\<forall>c\<in>set cs. 0 \<le> c_end c \<and> c_end c \<le> int e" using Cons.prems(1,2) e by auto
    show "e \<le> length original" using e Cons.prems(3) by simp
    show "take e (take e p @ injection (c_uri c) n @ drop e p) = take e original"
    proof -
      have "length (take e p) = e" using e lenp by simp
      then have "take e (take e p @ injection (c_uri c) n @ drop e p) = take e p" by simp
      then show ?thesis using te by simp
    qed
  qed
  then show ?case using 1 im by simp
qed

text \<open>
  Where the end indices do not grow along the processing order (as with ranges that do not
  contain one another) and lie inside the text, every marker is inserted in front of exactly the
  original text that precedes its \<open>endIndex\<close>.
\<close>

lemma offsets_intact_from_text:
  "sorted_wrt (\<lambda>a b. c_end b \<le> c_end a) cs \<Longrightarrow>
   \<forall>c\<in>set cs. 0 \<le> c_end c \<and> c_end c \<le> int (length original) \<Longrightarrow>
   offsets_intact original (original, ([], 1)) cs"
  by (rule offsets_intact_when_ends_descend[where m = "length original"]) simp_all

text \<open>
  C1, at a list with a nested range. The citations of \<open>abcdefghij\<close> are \<open>u\<close> on 0..10 and \<open>v\<close>
  on 5..8. The one with the larger \<open>startIndex\<close>, \<open>v\<close>, is processed first and its marker goes
  in at offset 8; the marker of \<open>u\<close> then goes in at offset 10 of the accumulated string, which
  is two characters into the marker of \<open>v\<close> and not the end of the original text: the offset of
  the citation not yet processed did move.
\<close>

theorem nested_citation_marker_misplaced:
  "renderMessageContent nested_msg =
     CitedMarkup (''abcdefgh<s'' @ injection ''u'' 2 @ drop 2 (injection ''v'' 1) @ ''ij'')
       [(''v'', 1), (''u'', 2)]
   \<and> sortedCitations [cite 0 10 ''u'', cite 5 8 ''v''] =
       [\<lparr>c_start = 5, c_end = 8, c_uri = ''v''\<rparr>, \<lparr>c_start = 0, c_end = 10, c_uri = ''u''\<rparr>]
   \<and> \<not> offsets_intact ''abcdefghij'' (''abcdefghij'', ([], 1))
         (sortedCitations [cite 0 10 ''u'', cite 5 8 ''v''])"
  by code_simp

subsection \<open>Assembling a streamed response\<close>

lemma yielded_items:
  "concat (map chunk_items chunks) = map text_item (deltas chunks)"
  by (induction chunks)
    (auto simp: chunk_items_def deltas_def List.map_filter_simps split: option.splits)

lemma deltas_truthy: "d \<in> set (deltas chunks) \<Longrightarrow> truthy d"
  by (auto simp: deltas_def List.map_filter_def split: option.splits if_splits)

lemma final_item_last:
  assumes "chunks \<noteq> []"
  shows "final_item (last chunks) =
           \<lparr>textChunk = None, item_urlContextMetadata = last_urlMetadata chunks,
            item_citations = last_citations chunks\<rparr>"
  using assms
  by (simp add: final_item_def last_citations_def last_urlMetadata_def Let_def
      split: option.splits list.splits)

lemma generator_success:
  assumes "key_configured env" "generateContentStream (backend env) = (\<lambda>request. (chunks, None))"
  shows "yielded (generateContentStreamWithUrlContext env history us fs language) =
           map text_item (deltas chunks) @
           (if chunks = [] then []
            else [\<lparr>textChunk = None, item_urlContextMetadata = last_urlMetadata chunks,
                   item_citations = last_citations chunks\<rparr>])"
    and "thrown (generateContentStreamWithUrlContext env history us fs language) = None"
    and "length (calls (generateContentStreamWithUrlContext env history us fs language)) = 1"
  using assms
  by (simp_all add: generateContentStreamWithUrlContext_def getAiInstance_def Let_def yielded_items
      final_item_last)

lemma update_message_absorb:
  assumes "\<And>m. f (g m) = f m" "\<And>m. msg_id (g m) = msg_id m"
  shows "update_message cid pid f (update_message cid pid g s) = update_message cid pid f s"
  using assms
  by (simp add: update_message_def updateConversation_def comp_def if_distrib cong: if_cong)

lemma update_message_fields [simp]:
  "pending (update_message cid pid f s) = pending s"
  "spoken (update_message cid pid f s) = spoken s"
  "isLoading (update_message cid pid f s) = isLoading s"
  "network (update_message cid pid f s) = network s"
  "update_message cid pid f (s\<lparr>pending := p\<rparr>) = (update_message cid pid f s)\<lparr>pending := p\<rparr>"
  by (simp_all add: update_message_def updateConversation_def)

lemma consume_text:
  "truthy d \<Longrightarrow> consume_item cid pid (text_item d) (acc, s) =
     (acc\<lparr>fullText := fullText acc @ d\<rparr>,
      update_message cid pid (\<lambda>m. m\<lparr>msg_text := fullText acc @ d\<rparr>) s)"
  by (simp add: consume_item_def text_item_def)

lemma consume_terminal:
  "consume_item cid pid \<lparr>textChunk = None, item_urlContextMetadata = ms, item_citations = cs\<rparr> (acc, s) =
     (acc\<lparr>finalCitations := (case cs of None \<Rightarrow> finalCitations acc | Some x \<Rightarrow> Some x),
          finalUrlContext := (case ms of None \<Rightarrow> finalUrlContext acc | Some x \<Rightarrow> Some x)\<rparr>, s)"
  by (simp add: consume_item_def Let_def split: option.splits)

lemma fold_texts:
  assumes "\<forall>d \<in> set ds. truthy d"
  shows "fold (consume_item cid pid) (map text_item ds) (acc, s) =
           (acc\<lparr>fullText := fullText acc @ concat ds\<rparr>,
            if ds = [] then s
            else update_message cid pid (\<lambda>m. m\<lparr>msg_text := fullText acc @ concat ds\<rparr>) s)"
  using assms
proof (induction ds arbitrary: acc s)
  case Nil
  then show ?case by simp
next
  case (Cons d ds)
  have d: "truthy d" and ds: "\<forall>d \<in> set ds. truthy d" using Cons.prems by simp_all
  show ?case
    by (simp add: consume_text[OF d] Cons.IH[OF ds] update_message_absorb)
qed

lemma fold_stream:
  assumes "items = map text_item (deltas chunks) @
             (if chunks = [] then []
              else [\<lparr>textChunk = None, item_urlContextMetadata = last_urlMetadata chunks,
                     item_citations = last_citations chunks\<rparr>])"
  shows "fold (consume_item cid pid) items
           (\<lparr>fullText = [], finalCitations = None, finalUrlContext = None\<rparr>, s) =
         (\<lparr>fullText = concat (deltas chunks), finalCitations = last_citations chunks,
           finalUrlContext = last_urlMetadata chunks\<rparr>,
          if deltas chunks = [] then s
          else update_message cid pid (\<lambda>m. m\<lparr>msg_text := concat (deltas chunks)\<rparr>) s)"
proof -
  have tr: "\<forall>d \<in> set (deltas chunks). truthy d" using deltas_truthy by blast
  show ?thesis
  proof (cases "chunks = []")
    case True
    then show ?thesis
      using assms by (simp add: deltas_def List.map_filter_simps last_citations_def last_urlMetadata_def)
  next
    case False
    then show ?thesis
      unfolding assms
      by (simp add: fold_texts[OF tr] consume_terminal split: option.splits)
  qed
qed

lemma finish_absorb:
  "finish_response cid pid acc (update_message cid pid (\<lambda>m. m\<lparr>msg_text := t\<rparr>) s) =
     finish_response cid pid acc s"
  by (simp add: finish_response_def update_message_absorb)

lemma finish_response_pending [simp]:
  "finish_response cid pid acc (s\<lparr>pending := p\<rparr>) = (finish_response cid pid acc s)\<lparr>pending := p\<rparr>"
  "fail_response cid ph e (s\<lparr>pending := p\<rparr>) = (fail_response cid ph e s)\<lparr>pending := p\<rparr>"
  by (simp_all add: finish_response_def fail_response_def)

lemma consume_item_pending:
  "consume_item cid pid chunk (a, s\<lparr>pending := p\<rparr>) =
     (case consume_item cid pid chunk (a, s) of (a', s') \<Rightarrow> (a', s'\<lparr>pending := p\<rparr>))"
  by (simp add: consume_item_def Let_def split: option.splits)

lemma fold_consume_pending:
  "fold (consume_item cid pid) items (a, s\<lparr>pending := p\<rparr>) =
     (case fold (consume_item cid pid) items (a, s) of (a', s') \<Rightarrow> (a', s'\<lparr>pending := p\<rparr>))"
proof (induction items arbitrary: a s)
  case Nil
  then show ?case by simp
next
  case (Cons chunk items)
  obtain a1 s1 where c: "consume_item cid pid chunk (a, s) = (a1, s1)" by (cases "consume_item cid pid chunk (a, s)")
  show ?case
    by (simp add: consume_item_pending c Cons.IH)
qed

lemma pending_consume_item:
  "consume_item cid pid chunk (a, s) = (a', s') \<Longrightarrow> pending s' = pending s"
  by (auto simp: consume_item_def Let_def split: option.splits if_splits)

text \<open>A single waiting activation, resumed once for each item of its stream, and once more.\<close>

lemma resume_items:
  assumes "pending s = [r]" "r_items r = items"
  shows "(resume 0 ^^ length items) s =
     (case fold (consume_item (r_conversation r) (msg_id (r_placeholder r))) items (r_acc r, s) of
        (a, s') \<Rightarrow> s'\<lparr>pending := [r\<lparr>r_acc := a, r_items := []\<rparr>]\<rparr>)"
  using assms
proof (induction items arbitrary: r s)
  case Nil
  then have "r\<lparr>r_acc := r_acc r, r_items := []\<rparr> = r" by simp
  then show ?case using Nil by simp
next
  case (Cons chunk rest)
  let ?cid = "r_conversation r" and ?pid = "msg_id (r_placeholder r)"
  obtain a1 s1 where c: "consume_item ?cid ?pid chunk (r_acc r, s) = (a1, s1)"
    by (cases "consume_item ?cid ?pid chunk (r_acc r, s)")
  let ?r' = "r\<lparr>r_acc := a1, r_items := rest\<rparr>"
  have step: "resume 0 s = s1\<lparr>pending := [?r']\<rparr>"
    using Cons.prems c by (simp add: resume_def Let_def)
  have "(resume 0 ^^ length (chunk # rest)) s = (resume 0 ^^ length rest) (resume 0 s)"
    by (simp add: funpow_swap1)
  also have "\<dots> = (case fold (consume_item ?cid ?pid) rest (a1, s1\<lparr>pending := [?r']\<rparr>) of
        (a, s') \<Rightarrow> s'\<lparr>pending := [?r'\<lparr>r_acc := a, r_items := []\<rparr>]\<rparr>)"
    unfolding step using Cons.IH[of "s1\<lparr>pending := [?r']\<rparr>" ?r'] by simp
  also have "\<dots> = (case fold (consume_item ?cid ?pid) (chunk # rest) (r_acc r, s) of
        (a, s') \<Rightarrow> s'\<lparr>pending := [r\<lparr>r_acc := a, r_items := []\<rparr>]\<rparr>)"
    by (simp add: fold_consume_pending c split: prod.splits)
  finally show ?case .
qed

lemma settle_single:
  assumes "pending s = [r]"
  shows "settle s =
     (case fold (consume_item (r_conversation r) (msg_id (r_placeholder r))) (r_items r) (r_acc r, s) of
        (a, s') \<Rightarrow>
          (case r_thrown r of
             None \<Rightarrow> finish_response (r_conversation r) (msg_id (r_placeholder r)) a s'
           | Some e \<Rightarrow> fail_response (r_conversation r) (r_placeholder r) e s')
            \<lparr>isLoading := False, pending := []\<rparr>)"
proof -
  let ?cid = "r_conversation r" and ?pid = "msg_id (r_placeholder r)"
  obtain a s' where f: "fold (consume_item ?cid ?pid) (r_items r) (r_acc r, s) = (a, s')"
    by (cases "fold (consume_item ?cid ?pid) (r_items r) (r_acc r, s)")
  have "settle s = resume 0 ((resume 0 ^^ length (r_items r)) s)"
    using assms by (simp add: settle_def)
  also have "\<dots> = resume 0 (s'\<lparr>pending := [r\<lparr>r_acc := a, r_items := []\<rparr>]\<rparr>)"
    using resume_items[OF assms refl] f by simp
  also have "\<dots> = (case r_thrown r of
             None \<Rightarrow> finish_response ?cid ?pid a s'
           | Some e \<Rightarrow> fail_response ?cid (r_placeholder r) e s')
            \<lparr>isLoading := False, pending := []\<rparr>"
    by (simp add: resume_def Let_def split: option.splits)
  finally show ?thesis using f by simp
qed

lemma begin_response_fields [simp]:
  "pending (begin_response now s) = pending s"
  "network (begin_response now s) = network s"
  "spoken (begin_response now s) = spoken s"
  "isLoading (begin_response now s)"
  "activeConversationId (begin_response now s) = activeConversationId s"
  by (simp_all add: begin_response_def updateActiveConversation_def)

lemma trigger_started:
  assumes "key_configured env" "\<not> isLoading s" "\<not> isFetchingSuggestions s"
  shows "triggerModelResponse env now history s =
     (begin_response now s)
       \<lparr>network := network s @ calls (generateContentStreamWithUrlContext env history
                     (contextUrls s) (contextFiles s) (lang env)),
        pending := pending s @
          [\<lparr>r_conversation = activeConversationId s, r_placeholder = modelPlaceholderMessage now,
            r_acc = \<lparr>fullText = [], finalCitations = None, finalUrlContext = None\<rparr>,
            r_items = yielded (generateContentStreamWithUrlContext env history
                        (contextUrls s) (contextFiles s) (lang env)),
            r_thrown = thrown (generateContentStreamWithUrlContext env history
                        (contextUrls s) (contextFiles s) (lang env))\<rparr>]\<rparr>"
  using assms by (simp add: triggerModelResponse_def Let_def)

lemma trigger_success:
  assumes "key_configured env" "generateContentStream (backend env) = (\<lambda>request. (chunks, None))"
    "\<not> isLoading s" "\<not> isFetchingSuggestions s" "pending s = []"
  shows "settle (triggerModelResponse env now history s) =
     (finish_response (activeConversationId s) (msg_id (modelPlaceholderMessage now))
        \<lparr>fullText = concat (deltas chunks), finalCitations = last_citations chunks,
         finalUrlContext = last_urlMetadata chunks\<rparr>
        ((begin_response now s)
           \<lparr>network := network s @ calls (generateContentStreamWithUrlContext env history
                (contextUrls s) (contextFiles s) (lang env))\<rparr>))\<lparr>isLoading := False\<rparr>"
proof -
  let ?gen = "generateContentStreamWithUrlContext env history (contextUrls s) (contextFiles s) (lang env)"
  let ?pid = "msg_id (modelPlaceholderMessage now)"
  let ?cid = "activeConversationId s"
  let ?r = "\<lparr>r_conversation = ?cid, r_placeholder = modelPlaceholderMessage now,
            r_acc = \<lparr>fullText = [], finalCitations = None, finalUrlContext = None\<rparr>,
            r_items = yielded ?gen, r_thrown = thrown ?gen\<rparr>"
  let ?sb = "(begin_response now s)\<lparr>network := network s @ calls ?gen\<rparr>"
  let ?acc = "\<lparr>fullText = concat (deltas chunks), finalCitations = last_citations chunks,
         finalUrlContext = last_urlMetadata chunks\<rparr>"
  note g = generator_success[OF assms(1,2), of history "contextUrls s" "contextFiles s" "lang env"]
  have t: "triggerModelResponse env now history s = ?sb\<lparr>pending := [?r]\<rparr>"
    using trigger_started[OF assms(1,3,4), of now history] assms(5) by simp
  have p: "pending (?sb\<lparr>pending := [?r]\<rparr>) = [?r]" by simp
  have sbp: "pending ?sb = []" using assms(5) by simp
  have f: "fold (consume_item ?cid ?pid) (yielded ?gen)
             (\<lparr>fullText = [], finalCitations = None, finalUrlContext = None\<rparr>, ?sb) =
           (?acc, if deltas chunks = [] then ?sb
                  else update_message ?cid ?pid (\<lambda>m. m\<lparr>msg_text := concat (deltas chunks)\<rparr>) ?sb)"
    by (rule fold_stream[OF g(1)])
  have fin: "finish_response ?cid ?pid ?acc
               (if deltas chunks = [] then ?sb
                else update_message ?cid ?pid (\<lambda>m. m\<lparr>msg_text := concat (deltas chunks)\<rparr>) ?sb) =
             finish_response ?cid ?pid ?acc ?sb"
    by (simp add: finish_absorb)
  have "settle (triggerModelResponse env now history s) =
          (finish_response ?cid ?pid ?acc ?sb)\<lparr>isLoading := False, pending := []\<rparr>"
    unfolding t settle_single[OF p]
    using f fin g(2) by (simp add: fold_consume_pending)
  also have "\<dots> = (finish_response ?cid ?pid ?acc ?sb)\<lparr>isLoading := False\<rparr>"
    using sbp by (simp add: finish_response_def)
  finally show ?thesis .
qed

lemma kb_active_fields:
  "kb_activeConversation (x\<lparr>isLoading := b\<rparr>) = kb_activeConversation x"
  "kb_activeConversation (x\<lparr>network := n\<rparr>) = kb_activeConversation x"
  "kb_activeConversation (x\<lparr>spoken := sp\<rparr>) = kb_activeConversation x"
  "kb_activeConversation (x\<lparr>initialQuerySuggestions := q\<rparr>) = kb_activeConversation x"
  "kb_activeConversation (x\<lparr>pending := p\<rparr>) = kb_activeConversation x"
  by (simp_all add: kb_activeConversation_def)

lemma updateConversation_active:
  "activeConversationId s = cid \<Longrightarrow> updateConversation cid f s = updateActiveConversation f s"
  by (auto simp: updateConversation_def updateActiveConversation_def)

lemma kb_active_begin:
  assumes "kb_activeConversation s = Some c"
  shows "kb_activeConversation (begin_response now s) =
      Some (c\<lparr>messages := messages c @ [modelPlaceholderMessage now], lastUpdated := now\<rparr>)"
  unfolding begin_response_def
  by (subst kb_active_update) (simp_all add: kb_active_fields assms)

lemma kb_active_finished:
  assumes "kb_activeConversation s = Some c"
  shows "kb_activeConversation
     ((finish_response (activeConversationId s) (msg_id (modelPlaceholderMessage now))
        \<lparr>fullText = concat (deltas chunks), finalCitations = last_citations chunks,
         finalUrlContext = last_urlMetadata chunks\<rparr>
        ((begin_response now s)\<lparr>network := n\<rparr>))\<lparr>isLoading := False\<rparr>) =
     Some (c\<lparr>messages := map (finalized now chunks) (messages c @ [modelPlaceholderMessage now]),
             lastUpdated := now\<rparr>)"
proof -
  have a: "activeConversationId ((begin_response now s)\<lparr>network := n\<rparr>) = activeConversationId s"
    by simp
  show ?thesis
    unfolding finish_response_def update_message_def updateConversation_active[OF a]
    apply (simp only: kb_active_fields)
    apply (subst kb_active_update)
     apply simp
    apply (simp add: kb_active_fields kb_active_begin[OF assms] finalized_def cong: if_cong)
    done
qed

lemma chatMessages_active:
  "kb_activeConversation s = Some c \<Longrightarrow> chatMessages s = messages c"
  by (simp add: chatMessages_def activeConversation_def kb_activeConversation_def)

lemma trigger_started_messages:
  assumes "key_configured env" "\<not> isLoading s" "\<not> isFetchingSuggestions s"
    "kb_activeConversation s = Some c"
  shows "chatMessages (triggerModelResponse env now history s) = messages c @ [modelPlaceholderMessage now]"
    and "isLoading (triggerModelResponse env now history s)"
    and "length (pending (triggerModelResponse env now history s)) = Suc (length (pending s))"
proof -
  have "kb_activeConversation (triggerModelResponse env now history s) =
      Some (c\<lparr>messages := messages c @ [modelPlaceholderMessage now], lastUpdated := now\<rparr>)"
    unfolding trigger_started[OF assms(1-3)]
    by (simp only: kb_active_fields kb_active_begin[OF assms(4)])
  from chatMessages_active[OF this]
  show "chatMessages (triggerModelResponse env now history s) = messages c @ [modelPlaceholderMessage now]"
    by simp
  show "isLoading (triggerModelResponse env now history s)"
    unfolding trigger_started[OF assms(1-3)] by simp
  show "length (pending (triggerModelResponse env now history s)) = Suc (length (pending s))"
    unfolding trigger_started[OF assms(1-3)] by simp
qed

lemma trigger_success_messages:
  assumes "key_configured env" "generateContentStream (backend env) = (\<lambda>request. (chunks, None))"
    "\<not> isLoading s" "\<not> isFetchingSuggestions s" "pending s = []" "kb_activeConversation s = Some c"
  shows "kb_activeConversation (settle (triggerModelResponse env now history s)) =
           Some (c\<lparr>messages := map (finalized now chunks) (messages c @ [modelPlaceholderMessage now]),
                   lastUpdated := now\<rparr>)"
    and "chatMessages (settle (triggerModelResponse env now history s)) =
           map (finalized now chunks) (messages c) @ [finalized now chunks (modelPlaceholderMessage now)]"
    and "isLoading (settle (triggerModelResponse env now history s)) = False"
    and "spoken (settle (triggerModelResponse env now history s)) = spoken s @ [concat (deltas chunks)]"
    and "pending (settle (triggerModelResponse env now history s)) = []"
proof -
  show k: "kb_activeConversation (settle (triggerModelResponse env now history s)) =
           Some (c\<lparr>messages := map (finalized now chunks) (messages c @ [modelPlaceholderMessage now]),
                   lastUpdated := now\<rparr>)"
    unfolding trigger_success[OF assms(1-5)] by (rule kb_active_finished[OF assms(6)])
  show "chatMessages (settle (triggerModelResponse env now history s)) =
           map (finalized now chunks) (messages c) @ [finalized now chunks (modelPlaceholderMessage now)]"
    using chatMessages_active[OF k] by simp
  show "isLoading (settle (triggerModelResponse env now history s)) = False"
    unfolding trigger_success[OF assms(1-5)] by simp
  show "spoken (settle (triggerModelResponse env now history s)) = spoken s @ [concat (deltas chunks)]"
    unfolding trigger_success[OF assms(1-5)]
    by (simp add: finish_response_def)
  show "pending (settle (triggerModelResponse env now history s)) = []"
    unfolding trigger_success[OF assms(1-5)]
    using assms(5) by (simp add: finish_response_def)
qed

text \<open>
  C2, as the code has it. For a stream that ends without an error, the streaming function
  yields the non-empty text of each chunk in arrival order, and then, if the stream had at
  least one chunk, exactly one item without text that carries the citations and the URL
  metadata of the first candidate of the last chunk (each possibly undefined); a stream without
  a chunk yields nothing at all. A response that is triggered while nothing else is in flight,
  in a state whose active id names a conversation, first appends the placeholder and raises
  the loading flag. If then nothing happens but the stream being delivered, it ends with the
  placeholder as the last message of that conversation, the concatenated deltas as its text,
  \<open>isLoading\<close> false and the citations and URL metadata of that last item (undefined for a
  stream without a chunk); the loading flag is down, nothing waits any more, and the text has
  been handed to the speech service.
\<close>

theorem stream_assembly:
  assumes "key_configured env"
    and "generateContentStream (backend env) = (\<lambda>request. (chunks, None))"
  shows "yielded (generateContentStreamWithUrlContext env history us fs language) =
           map text_item (deltas chunks) @
           (if chunks = [] then []
            else [\<lparr>textChunk = None, item_urlContextMetadata = last_urlMetadata chunks,
                   item_citations = last_citations chunks\<rparr>])
       \<and> length (filter (\<lambda>item. textChunk item = None)
                   (yielded (generateContentStreamWithUrlContext env history us fs language))) =
           (if chunks = [] then 0 else 1)
       \<and> thrown (generateContentStreamWithUrlContext env history us fs language) = None
       \<and> (\<not> isLoading s \<and> \<not> isFetchingSuggestions s \<and> pending s = [] \<and>
          kb_activeConversation s = Some c \<longrightarrow>
            chatMessages (triggerModelResponse env now history s) =
              messages c @ [modelPlaceholderMessage now]
          \<and> isLoading (triggerModelResponse env now history s)
          \<and> length (pending (triggerModelResponse env now history s)) = 1
          \<and> chatMessages (settle (triggerModelResponse env now history s)) =
              map (finalized now chunks) (messages c) @
              [(modelPlaceholderMessage now)
                 \<lparr>msg_text := concat (deltas chunks), msg_isLoading := Some False,
                  citations := last_citations chunks, urlContext := last_urlMetadata chunks\<rparr>]
          \<and> isLoading (settle (triggerModelResponse env now history s)) = False
          \<and> pending (settle (triggerModelResponse env now history s)) = []
          \<and> spoken (settle (triggerModelResponse env now history s)) = spoken s @ [concat (deltas chunks)])"
proof -
  note g = generator_success[OF assms, of history us fs language]
  have one: "length (filter (\<lambda>item. textChunk item = None)
                   (yielded (generateContentStreamWithUrlContext env history us fs language))) =
           (if chunks = [] then 0 else 1)"
    unfolding g(1) by (simp add: text_item_def filter_empty_conv)
  have fin: "finalized now chunks (modelPlaceholderMessage now) =
      (modelPlaceholderMessage now)
                 \<lparr>msg_text := concat (deltas chunks), msg_isLoading := Some False,
                  citations := last_citations chunks, urlContext := last_urlMetadata chunks\<rparr>"
    by (simp add: finalized_def)
  have app: "chatMessages (triggerModelResponse env now history s) =
              messages c @ [modelPlaceholderMessage now]
          \<and> isLoading (triggerModelResponse env now history s)
          \<and> length (pending (triggerModelResponse env now history s)) = 1
          \<and> chatMessages (settle (triggerModelResponse env now history s)) =
              map (finalized now chunks) (messages c) @
              [(modelPlaceholderMessage now)
                 \<lparr>msg_text := concat (deltas chunks), msg_isLoading := Some False,
                  citations := last_citations chunks, urlContext := last_urlMetadata chunks\<rparr>]
          \<and> isLoading (settle (triggerModelResponse env now history s)) = False
          \<and> pending (settle (triggerModelResponse env now history s)) = []
          \<and> spoken (settle (triggerModelResponse env now history s)) = spoken s @ [concat (deltas chunks)]"
    if h: "\<not> isLoading s \<and> \<not> isFetchingSuggestions s \<and> pending s = [] \<and>
          kb_activeConversation s = Some c"
  proof -
    from h have i: "\<not> isLoading s" "\<not> isFetchingSuggestions s" "pending s = []"
      "kb_activeConversation s = Some c" by simp_all
    note st = trigger_started_messages[OF assms(1) i(1,2,4), of now history]
    note en = trigger_success_messages[OF assms i, of now history]
    show ?thesis
      using st en(2-5) i(3) unfolding fin by simp
  qed
  show ?thesis
    using g(1,2) one app by blast
qed

theorem stream_assembly_witness:
  "key_configured env_key
   \<and> yielded (generateContentStreamWithUrlContext env_key [] [] [] en) =
       [\<lparr>textChunk = Some ''Hel'', item_urlContextMetadata = None, item_citations = None\<rparr>,
        \<lparr>textChunk = Some ''lo'', item_urlContextMetadata = None, item_citations = None\<rparr>,
        \<lparr>textChunk = None, item_urlContextMetadata = Some [retrieved_u],
         item_citations = Some [cite 0 5 ''u'']\<rparr>]
   \<and> \<not> isLoading app0 \<and> \<not> isFetchingSuggestions app0 \<and> pending app0 = []
   \<and> kb_activeConversation app0 = Some conv0
   \<and> chatMessages (triggerModelResponse env_key 5 [] app0) = [modelPlaceholderMessage 5]
   \<and> chatMessages (settle (triggerModelResponse env_key 5 [] app0)) =
       [(modelPlaceholderMessage 5)
          \<lparr>msg_text := ''Hello'', msg_isLoading := Some False, citations := Some [cite 0 5 ''u''],
           urlContext := Some [retrieved_u]\<rparr>]
   \<and> isLoading (settle (triggerModelResponse env_key 5 [] app0)) = False"
proof -
  have key: "key_configured env_key"
    by (simp add: key_configured_def env_key_def env_nokey_def truthy_def)
  have stream: "generateContentStream (backend env_key) = (\<lambda>request. (chunks_hello, None))"
    by (simp add: env_key_def env_nokey_def backend_hello_def)
  have idle: "\<not> isLoading app0 \<and> \<not> isFetchingSuggestions app0 \<and> pending app0 = [] \<and>
      kb_activeConversation app0 = Some conv0"
    by (simp add: app0_def kb_activeConversation_def conv0_def)
  have vals: "deltas chunks_hello = [''Hel'', ''lo'']" "chunks_hello \<noteq> []"
    "last_citations chunks_hello = Some [cite 0 5 ''u'']"
    "last_urlMetadata chunks_hello = Some [retrieved_u]"
    "messages conv0 = []"
    by (simp_all add: deltas_def chunks_hello_def List.map_filter_simps truthy_def
        last_citations_def last_urlMetadata_def conv0_def)
  show ?thesis
    using stream_assembly [OF key stream, of "[]" "[]" "[]" en app0 conv0 5] key idle vals
    by (simp add: text_item_def)
qed

text \<open>
  C2 as stated, for every stream and whatever else happens. A stream that ends before its
  first chunk makes the streaming function yield nothing, so no terminal item follows. And a
  handler that runs while the stream is delivered can take the placeholder away: after an
  edit of the question the rest of the stream finds no message to update, and when the stream
  is exhausted the conversation holds no model message, finalized or not, while the full text
  still goes to the speech service.
\<close>

theorem stream_assembly_counterexample:
  "key_configured env_silent
   \<and> generateContentStream (backend env_silent) \<lparr>req_contents = [], req_language = en, req_tools = []\<rparr>
       = ([], None)
   \<and> yielded (generateContentStreamWithUrlContext env_silent [] [] [] en) = []
   \<and> thrown (generateContentStreamWithUrlContext env_silent [] [] [] en) = None
   \<and> chatMessages (resume 0 (handleSendMessage env_key 3 ''What is it?'' [] app_welcome)) =
        [welcome_msg, userMessage 3 ''What is it?'' [], (modelPlaceholderMessage 3)\<lparr>msg_text := ''Hel''\<rparr>]
   \<and> chatMessages app_interrupted =
        [welcome_msg, (userMessage 3 ''What is it?'' [])\<lparr>msg_text := ''Edited'', timestamp := 9\<rparr>]
   \<and> pending app_interrupted = []
   \<and> isLoading app_interrupted = False
   \<and> spoken app_interrupted = [''Hello'']"
  by code_simp

text \<open>
  The streamed \<open>Hello\<close> with its citation of \<open>u\<close> on 0..5, once finalized, is rendered with one
  marker, after the fifth character.
\<close>

lemma hello_rendered:
  "renderMessageContent (last (chatMessages (settle (triggerModelResponse env_key 5 [] app0)))) =
     CitedMarkup (''Hello'' @ injection ''u'' 1) [(''u'', 1)]"
  by code_simp

subsection \<open>Edit and regenerate\<close>

text \<open>
  With no generation and no suggestion fetch running, a configured key and a stream that ends
  without an error and is delivered without anything else happening, editing the user message
  at index \<open>i\<close> leaves the \<open>i\<close> messages before it, the edited message and one new model
  message; regenerating the model message at index \<open>i\<close> leaves the \<open>i\<close> messages before it and
  one new model message. A target id that is not in the history, or that belongs to a message
  of the wrong sender, changes nothing.
\<close>

lemma replay_precondition:
  "findIndex (\<lambda>m. msg_id m = messageId) (chatMessages s) = None \<Longrightarrow>
     handleEditMessage env now messageId newText s = s \<and> handleRegenerateResponse env now messageId s = s"
  "findIndex (\<lambda>m. msg_id m = messageId) (chatMessages s) = Some i \<Longrightarrow>
     sender (chatMessages s ! i) \<noteq> USER \<Longrightarrow> handleEditMessage env now messageId newText s = s"
  "findIndex (\<lambda>m. msg_id m = messageId) (chatMessages s) = Some i \<Longrightarrow>
     sender (chatMessages s ! i) \<noteq> MODEL \<Longrightarrow> handleRegenerateResponse env now messageId s = s"
  by (simp_all add: handleEditMessage_def handleRegenerateResponse_def)

lemma edit_when_idle:
  assumes "key_configured env" "generateContentStream (backend env) = (\<lambda>request. (chunks, None))"
    "\<not> isLoading s" "\<not> isFetchingSuggestions s" "pending s = []" "kb_activeConversation s = Some c"
    "findIndex (\<lambda>m. msg_id m = messageId) (messages c) = Some i" "sender (messages c ! i) = USER"
  shows "chatMessages (settle (handleEditMessage env now messageId newText s)) =
           map (finalized now chunks) (take i (messages c) @ [(messages c ! i)\<lparr>msg_text := newText, timestamp := now\<rparr>])
           @ [finalized now chunks (modelPlaceholderMessage now)]"
    and "length (chatMessages (settle (handleEditMessage env now messageId newText s))) = i + 2"
    and "sender (last (chatMessages (settle (handleEditMessage env now messageId newText s)))) = MODEL"
proof -
  let ?h = "take i (messages c) @ [(messages c ! i)\<lparr>msg_text := newText, timestamp := now\<rparr>]"
  let ?s' = "updateActiveConversation (\<lambda>c. c\<lparr>messages := ?h, lastUpdated := now\<rparr>) s"
  have i: "i < length (messages c)" using findIndex_Some[OF assms(7)] by simp
  have k: "kb_activeConversation ?s' = Some (c\<lparr>messages := ?h, lastUpdated := now\<rparr>)"
    by (subst kb_active_update) (simp_all add: assms(6))
  have e: "handleEditMessage env now messageId newText s = triggerModelResponse env now ?h ?s'"
    using assms(7,8) by (simp add: handleEditMessage_def chatMessages_active[OF assms(6)] Let_def)
  show 1: "chatMessages (settle (handleEditMessage env now messageId newText s)) =
           map (finalized now chunks) ?h @ [finalized now chunks (modelPlaceholderMessage now)]"
    unfolding e
    using trigger_success_messages(2)[OF assms(1,2) _ _ _ k, of now ?h] assms(3,4,5) by simp
  show "length (chatMessages (settle (handleEditMessage env now messageId newText s))) = i + 2"
    unfolding 1 using i by simp
  show "sender (last (chatMessages (settle (handleEditMessage env now messageId newText s)))) = MODEL"
    unfolding 1 by (simp add: finalized_def modelPlaceholderMessage_def)
qed

lemma regenerate_when_idle:
  assumes "key_configured env" "generateContentStream (backend env) = (\<lambda>request. (chunks, None))"
    "\<not> isLoading s" "\<not> isFetchingSuggestions s" "pending s = []" "kb_activeConversation s = Some c"
    "findIndex (\<lambda>m. msg_id m = messageId) (messages c) = Some i" "sender (messages c ! i) = MODEL"
  shows "chatMessages (settle (handleRegenerateResponse env now messageId s)) =
           map (finalized now chunks) (take i (messages c))
           @ [finalized now chunks (modelPlaceholderMessage now)]"
    and "length (chatMessages (settle (handleRegenerateResponse env now messageId s))) = i + 1"
    and "sender (last (chatMessages (settle (handleRegenerateResponse env now messageId s)))) = MODEL"
proof -
  let ?h = "take i (messages c)"
  let ?s' = "updateActiveConversation (\<lambda>c. c\<lparr>messages := ?h, lastUpdated := now\<rparr>) s"
  have i: "i < length (messages c)" using findIndex_Some[OF assms(7)] by simp
  have k: "kb_activeConversation ?s' = Some (c\<lparr>messages := ?h, lastUpdated := now\<rparr>)"
    by (subst kb_active_update) (simp_all add: assms(6))
  have e: "handleRegenerateResponse env now messageId s = triggerModelResponse env now ?h ?s'"
    using assms(7,8) by (simp add: handleRegenerateResponse_def chatMessages_active[OF assms(6)] Let_def)
  show 1: "chatMessages (settle (handleRegenerateResponse env now messageId s)) =
           map (finalized now chunks) ?h @ [finalized now chunks (modelPlaceholderMessage now)]"
    unfolding e
    using trigger_success_messages(2)[OF assms(1,2) _ _ _ k, of now ?h] assms(3,4,5) by simp
  show "length (chatMessages (settle (handleRegenerateResponse env now messageId s))) = i + 1"
    unfolding 1 using i by simp
  show "sender (last (chatMessages (settle (handleRegenerateResponse env now messageId s)))) = MODEL"
    unfolding 1 by (simp add: finalized_def modelPlaceholderMessage_def)
qed

text \<open>
  C6, while a generation is in flight. \<open>handleSendMessage\<close> tests the flags before it touches
  the state; \<open>handleEditMessage\<close> and \<open>handleRegenerateResponse\<close> write the truncated history
  first and leave the test to \<open>triggerModelResponse\<close>, which then returns without generating.
  So an edit made while the answer to \<open>question\<close> is streaming is not a no-op: the history is
  cut down to the edited message, the placeholder of the running response is gone, no request
  is sent, no second response is started, and no model message follows, not even when the
  running stream has been delivered to its end. Regenerating an earlier answer while a later
  one is streaming cuts the history in the same way. A send in the same state changes nothing.
\<close>

theorem replay_in_flight_truncates:
  "isLoading app_streaming
   \<and> chatMessages app_streaming = [welcome_msg, question, modelPlaceholderMessage 4]
   \<and> handleEditMessage env_key 9 ''user-3'' ''Edited'' app_streaming \<noteq> app_streaming
   \<and> chatMessages (handleEditMessage env_key 9 ''user-3'' ''Edited'' app_streaming) =
        [welcome_msg, question\<lparr>msg_text := ''Edited'', timestamp := 9\<rparr>]
   \<and> isLoading (handleEditMessage env_key 9 ''user-3'' ''Edited'' app_streaming)
   \<and> network (handleEditMessage env_key 9 ''user-3'' ''Edited'' app_streaming) = network app_streaming
   \<and> length (network app_streaming) = 1
   \<and> pending (handleEditMessage env_key 9 ''user-3'' ''Edited'' app_streaming) = pending app_streaming
   \<and> length (pending app_streaming) = 1
   \<and> chatMessages (settle (handleEditMessage env_key 9 ''user-3'' ''Edited'' app_streaming)) =
        [welcome_msg, question\<lparr>msg_text := ''Edited'', timestamp := 9\<rparr>]
   \<and> isLoading app_streaming_again
   \<and> chatMessages app_streaming_again =
        [welcome_msg, question, answer, question\<lparr>msg_id := ''user-7''\<rparr>, modelPlaceholderMessage 8]
   \<and> handleRegenerateResponse env_key 9 ''model-response-4'' app_streaming_again \<noteq> app_streaming_again
   \<and> chatMessages (handleRegenerateResponse env_key 9 ''model-response-4'' app_streaming_again) =
        [welcome_msg, question]
   \<and> network (handleRegenerateResponse env_key 9 ''model-response-4'' app_streaming_again) =
        network app_streaming_again
   \<and> chatMessages (settle (handleRegenerateResponse env_key 9 ''model-response-4'' app_streaming_again)) =
        [welcome_msg, question]
   \<and> handleSendMessage env_key 9 ''Another'' [] app_streaming = app_streaming"
  by code_simp


subsection \<open>The life of an attachment\<close>

lemma att_id_mark [simp]:
  "att_id (mark_error m a) = att_id a" "att_id (mark_loaded d a) = att_id a"
  by (simp_all add: mark_error_def mark_loaded_def)

lemma mark_error_idem [simp]: "mark_error m (mark_error m a) = mark_error m a"
  by (simp add: mark_error_def)




































text \<open>
  Ids are made of the file name and the clock, so two files of one name dropped together get
  one id, and each reader's answer then rewrites both attachments: here both go from
  \<open>Loading\<close> to \<open>Loaded\<close> with the first answer and on to \<open>Error\<close> with the second.
\<close>

lemma same_id_transitions_twice:
  "map att_id (ci_attachments (handleFiles 7 [file_a, file_a] ci_empty)) = [''att-a.txt-7'', ''att-a.txt-7'']
   \<and> map att_status (ci_attachments (handleFiles 7 [file_a, file_a] ci_empty)) = [Loading, Loading]
   \<and> map att_status (ci_attachments
        (reader_onload ''att-a.txt-7'' (Some ''data:text/plain;base64,QQ=='')
           (handleFiles 7 [file_a, file_a] ci_empty))) = [Loaded, Loaded]
   \<and> map att_status (ci_attachments
        (reader_onerror ''att-a.txt-7''
           (reader_onload ''att-a.txt-7'' (Some ''data:text/plain;base64,QQ=='')
              (handleFiles 7 [file_a, file_a] ci_empty)))) = [Error, Error]"
  by code_simp

end
